theory Spec2Isabelle
  imports Main "HOL-Library.AList"
begin

section \<open>JavaScript values and the object heap\<close>

text \<open>
  A value is a primitive or a reference to a heap cell.  Numbers are modelled as integers
  (revisions and array lengths are the only arithmetic of the program), so \<open>NaN\<close> and
  fractions are outside the model and strict equality \<open>===\<close> is equality of \<open>jsval\<close>:
  value equality on primitives, identity of the address on objects.

  The numbers of the program are doubles.  A double holds every integer up to \<open>2 ^ 53\<close> =
  9007199254740992 in absolute value; above that only the multiples of a power of two
  (\<open>ulp_of\<close>: 2 up to \<open>2 ^ 54\<close>, 4 up to \<open>2 ^ 55\<close>, ...), and the result of an addition is
  rounded to the nearest of them, a tie going to the one with the even mantissa
  (\<open>double_round\<close>).  The one addition of the program, \<open>this.revision + 1\<close>, is rounded
  this way.
\<close>

function ulp_of :: "int \<Rightarrow> int" where
  "ulp_of a = (if a < 9007199254740992 then 1 else 2 * ulp_of (a div 2))"
  by pat_completeness auto
termination
  by (relation "measure nat") auto

declare ulp_of.simps [simp del]

definition double_round :: "int \<Rightarrow> int" where
  "double_round x =
     (let a = \<bar>x\<bar>; u = ulp_of a; q = a div u; rm = a mod u
      in sgn x * ((if u < 2 * rm \<or> (2 * rm = u \<and> odd q) then q + 1 else q) * u))"

type_synonym addr = nat
type_synonym rid = nat

datatype jsval = Undefined | Null | JBool bool | Num int | Str string | Ref addr

fun typeof :: "jsval \<Rightarrow> string" where
  "typeof Undefined = ''undefined''"
| "typeof Null = ''object''"
| "typeof (JBool b) = ''boolean''"
| "typeof (Num n) = ''number''"
| "typeof (Str s) = ''string''"
| "typeof (Ref a) = ''object''"

fun truthy :: "jsval \<Rightarrow> bool" where
  "truthy Undefined = False"
| "truthy Null = False"
| "truthy (JBool b) = b"
| "truthy (Num n) = (n \<noteq> 0)"
| "truthy (Str s) = (s \<noteq> [])"
| "truthy (Ref a) = True"

text \<open>
  A heap cell is a plain object or array (the flag is \<open>Array.isArray\<close>) with its own
  enumerable properties in enumeration order, or a \<open>Proxy\<close> over a target cell.  Addresses
  are positions in the heap; allocation appends.
\<close>

datatype cell = Plain bool "(string \<times> jsval) list" | ProxyOf addr

type_synonym heap = "cell list"

definition cell_at :: "heap \<Rightarrow> addr \<Rightarrow> cell option" where
  "cell_at h a = (if a < length h then Some (h ! a) else None)"

definition target_of :: "heap \<Rightarrow> addr \<Rightarrow> addr" where
  "target_of h a = (case cell_at h a of Some (ProxyOf t) \<Rightarrow> t | _ \<Rightarrow> a)"

definition own_props :: "heap \<Rightarrow> addr \<Rightarrow> (string \<times> jsval) list" where
  "own_props h a = (case cell_at h a of Some (Plain b ps) \<Rightarrow> ps | _ \<Rightarrow> [])"

definition isArray :: "heap \<Rightarrow> addr \<Rightarrow> bool" where
  "isArray h a = (case cell_at h a of Some (Plain b ps) \<Rightarrow> b | _ \<Rightarrow> False)"

definition hasOwnProperty :: "heap \<Rightarrow> addr \<Rightarrow> string \<Rightarrow> bool" where
  "hasOwnProperty h a key = (case map_of (own_props h a) key of Some v \<Rightarrow> True | None \<Rightarrow> False)"

definition read_prop :: "heap \<Rightarrow> addr \<Rightarrow> string \<Rightarrow> jsval" where
  "read_prop h a key = (case map_of (own_props h a) key of Some v \<Rightarrow> v | None \<Rightarrow> Undefined)"

definition write_prop :: "heap \<Rightarrow> addr \<Rightarrow> string \<Rightarrow> jsval \<Rightarrow> heap" where
  "write_prop h a key v =
     (case cell_at h a of
        Some (Plain b ps) \<Rightarrow> h[a := Plain b (AList.update key v ps)]
      | _ \<Rightarrow> h)"

definition remove_prop :: "heap \<Rightarrow> addr \<Rightarrow> string \<Rightarrow> heap" where
  "remove_prop h a key =
     (case cell_at h a of
        Some (Plain b ps) \<Rightarrow> h[a := Plain b (AList.delete key ps)]
      | _ \<Rightarrow> h)"

datatype error = Error string | TypeError string | RangeError string

section \<open>Path codec (shared.ts)\<close>

text \<open>\<open>String.prototype.split\<close> on a one-character separator.\<close>

fun str_split :: "char \<Rightarrow> string \<Rightarrow> string list" where
  "str_split c [] = [[]]"
| "str_split c (x # xs) =
     (if x = c then [] # str_split c xs
      else (case str_split c xs of [] \<Rightarrow> [[x]] | y # ys \<Rightarrow> (x # y) # ys))"

text \<open>\<open>Array.prototype.join\<close>.\<close>

fun str_join :: "string \<Rightarrow> string list \<Rightarrow> string" where
  "str_join sep [] = []"
| "str_join sep [x] = x"
| "str_join sep (x # y # zs) = x @ sep @ str_join sep (y # zs)"

text \<open>\<open>part.replace(/~1/g, '/')\<close>: every occurrence, scanning from the left.\<close>

fun detokenize :: "string \<Rightarrow> string" where
  "detokenize [] = []"
| "detokenize [x] = [x]"
| "detokenize (x # y # zs) =
     (if x = CHR ''~'' \<and> y = CHR ''1'' then CHR ''/'' # detokenize zs
      else x # detokenize (y # zs))"

text \<open>\<open>key.replace(/\//g, '~1')\<close>, the escape that \<open>proxyRecursive\<close> applies to a key.\<close>

fun tokenize :: "string \<Rightarrow> string" where
  "tokenize [] = []"
| "tokenize (x # xs) = (if x = CHR ''/'' then ''~1'' @ tokenize xs else x # tokenize xs)"

definition pathStrToPathArr :: "string \<Rightarrow> string list" where
  "pathStrToPathArr path =
     (let pathArr = map detokenize (str_split CHR ''/'' (drop 1 path))
      in if pathArr = [[]] then [] else pathArr)"

definition pathArrToPathStr :: "string list \<Rightarrow> string" where
  "pathArrToPathStr pathArr =
     (let path = str_join ''/'' pathArr
      in if take 1 path = ''/'' then path else ''/'' @ path)"

definition joinPathParts :: "string \<Rightarrow> string \<Rightarrow> string" where
  "joinPathParts part1 part2 =
     (if part1 \<noteq> [] \<and> last part1 = CHR ''/'' then part1 @ part2
      else part1 @ ''/'' @ part2)"

section \<open>Program state\<close>

text \<open>
  The wire protocol's and the classes' data.  Field names follow the source; a prefix
  tells the records apart, \<open>val\<close> is the Replicant's \<open>value\<close> and the leading underscore
  of private fields is dropped.
\<close>

datatype Status = Undeclared | Declaring | Declared

record ReplicantOptions =
  persistent :: "bool option"
  persistenceInterval :: "int option"

definition DEFAULT_PERSISTENCE_INTERVAL :: int where
  "DEFAULT_PERSISTENCE_INTERVAL = 100"

definition ARRAY_MUTATOR_METHODS :: "string list" where
  "ARRAY_MUTATOR_METHODS =
     [''copyWithin'', ''fill'', ''pop'', ''push'', ''reverse'', ''shift'', ''sort'', ''splice'',
      ''unshift'']"

record Metadata =
  md_replicant :: rid
  md_path :: string
  md_proxy :: addr

text \<open>
  An operation's \<open>args\<close> is the argument array of an array mutator, or the object
  \<open>{prop, newValue}\<close> (\<open>{prop}\<close> for \<open>delete\<close>, whose \<open>newValue\<close> reads as undefined).
  Reading \<open>args.prop\<close> or \<open>args.newValue\<close> off an array gives undefined, and
  \<open>Function.prototype.apply\<close> takes no argument from an object without a length.
\<close>

datatype operation_args = MutatorArgs "jsval list" | PropArgs string jsval

fun args_prop :: "operation_args \<Rightarrow> string" where
  "args_prop (PropArgs prop newValue) = prop"
| "args_prop (MutatorArgs xs) = ''undefined''"

fun args_newValue :: "operation_args \<Rightarrow> jsval" where
  "args_newValue (PropArgs prop newValue) = newValue"
| "args_newValue (MutatorArgs xs) = Undefined"

fun args_list :: "operation_args \<Rightarrow> jsval list" where
  "args_list (MutatorArgs xs) = xs"
| "args_list (PropArgs prop newValue) = []"

record operation =
  op_path :: string
  op_method :: string
  op_args :: operation_args
  op_result :: jsval

record validation_error =
  ve_field :: string
  ve_message :: string
  ve_value :: jsval
  ve_type :: string

datatype action_fn = Fn_proposeAssignment

datatype listener = ReplayOnNewListener | ExternalListener nat

record Replicant =
  name :: string
  namespace :: string
  val :: jsval
  opts :: nat
  revision :: int
  status :: Status
  operationQueue :: "operation list"
  actionQueue :: "(action_fn \<times> jsval list) list"
  socket :: nat
  schema :: jsval
  schemaSum :: string
  validationErrors :: "validation_error list"
  validator :: "jsval option"
  ignoreProxy :: bool
  listeners :: "(string \<times> listener) list"

text \<open>
  Messages.  An acknowledgement callback is named by the closure the source passes; the
  functions \<open>joinRoomCallback\<close>, \<open>declareCallback\<close>, \<open>proposeAssignmentCallback\<close> and
  \<open>fullUpdateCallback\<close> below are their bodies.
\<close>

datatype callback =
  JoinRoomCallback rid
| DeclareCallback rid
| ProposeAssignmentCallback rid
| FullUpdateCallback rid
| ExternalCallback nat

datatype payload =
  RoomPayload string
| DeclarePayload string string nat
| ProposePayload string string jsval string nat
| ReadPayload jsval jsval

record message =
  m_socket :: nat
  m_event :: string
  m_payload :: payload
  m_ack :: "callback option"

datatype handler =
  HandleAssignment rid
| HandleOperations rid
| HandleDisconnect rid
| HandleReconnect rid

record ackData =
  a_value :: jsval
  a_revision :: "int option"
  a_schema :: jsval
  a_schemaSum :: string
  a_rejectReason :: jsval

record assignmentData =
  ad_name :: string
  ad_namespace :: string
  ad_newValue :: jsval
  ad_revision :: "int option"

record operationsData =
  od_name :: string
  od_namespace :: string
  od_revision :: int
  od_operations :: "operation list"

datatype event_arg = ArgValue jsval | ArgOperations "operation list" | ArgData ackData

text \<open>
  The registry \<open>declaredReplicants\<close> is a plain object (\<open>{}\<close>) used as a dictionary from
  namespaces to plain objects, each a dictionary from names to the handle of a Replicant
  (the root proxy, one per raw Replicant object and identified with it).  A plain object
  has its own properties and a prototype, and the key \<open>__proto__\<close> is not an ordinary
  one: \<open>hasOwnProperty\<close> sees the own properties only, while reading \<open>__proto__\<close> yields
  the prototype and assigning an object to it replaces the prototype.  \<open>None\<close> is the
  prototype an object literal starts with, \<open>Object.prototype\<close>.  Only the code of the
  constructor touches these objects, so the prototype of the registry is, if not the
  initial one, an object that was written under the namespace \<open>__proto__\<close>, and the
  prototype of an object of names a handle that was written under the name \<open>__proto__\<close>.
\<close>

record names_object =
  own_names :: "(string \<times> rid) list"
  names_proto :: "rid option"

record registry_object =
  own_namespaces :: "(string \<times> names_object) list"
  registry_proto :: "names_object option"

text \<open>
  A property access on the registry that leaves it.  \<open>Trapped h prop\<close>: the access went
  up the prototype chain to the handle \<open>h\<close> and reached its \<open>get\<close> or \<open>set\<close> trap for the
  property \<open>prop\<close>, which reads or writes the Replicant object itself
  (\<open>target[prop] = newValue\<close>); the fields of that object other than those of the record
  \<open>Replicant\<close> are not modelled.  \<open>Foreign ns\<close>: \<open>declaredReplicants[ns]\<close> is not an
  object of the registry (it is \<open>undefined\<close>, \<open>Object.prototype\<close> or one of its
  members).
\<close>

datatype outside = Trapped rid string | Foreign string

text \<open>
  The whole store.  \<open>metadataMap\<close> is keyed by the raw object, as in the source; the
  Metadata object is shared with \<open>proxyMetadataMap\<close>, so that map sends a proxy to the raw
  object whose Metadata it shares and a path written through one map is seen through the
  other.  \<open>emitted\<close> is the log of \<open>socket.emit\<close>, \<open>handlers\<close> the log of \<open>socket.on\<close>,
  \<open>events\<close> the log of \<open>EventEmitter.emit\<close> on each Replicant.
\<close>

record state =
  heap :: heap
  metadataMap :: "(addr \<times> Metadata) list"
  proxyMetadataMap :: "(addr \<times> addr) list"
  proxySet :: "addr list"
  replicants :: "Replicant list"
  optsHeap :: "ReplicantOptions list"
  declaredReplicants :: registry_object
  emitted :: "message list"
  handlers :: "(nat \<times> string \<times> handler) list"
  events :: "(rid \<times> string \<times> event_arg list) list"

definition upd_rep :: "rid \<Rightarrow> (Replicant \<Rightarrow> Replicant) \<Rightarrow> state \<Rightarrow> state" where
  "upd_rep i f st = st\<lparr>replicants := (replicants st)[i := f (replicants st ! i)]\<rparr>"

definition socket_emit :: "nat \<Rightarrow> string \<Rightarrow> payload \<Rightarrow> callback option \<Rightarrow> state \<Rightarrow> state" where
  "socket_emit sock ev p cb st =
     st\<lparr>emitted := emitted st @ [\<lparr>m_socket = sock, m_event = ev, m_payload = p, m_ack = cb\<rparr>]\<rparr>"

definition emit_event :: "rid \<Rightarrow> string \<Rightarrow> event_arg list \<Rightarrow> state \<Rightarrow> state" where
  "emit_event this ev args st = st\<lparr>events := events st @ [(this, ev, args)]\<rparr>"

definition listenerCount :: "rid \<Rightarrow> string \<Rightarrow> state \<Rightarrow> nat" where
  "listenerCount this ev st = length (filter (\<lambda>l. fst l = ev) (listeners (replicants st ! this)))"

section \<open>Libraries and built-ins taken as parameters\<close>

text \<open>
  The packages \<open>clone\<close>, \<open>deep-equal\<close>, \<open>object-path\<close> and \<open>is-my-json-valid\<close>, the
  built-in array methods, string conversion and \<open>JSON.stringify\<close> are not code of this
  repository: the model takes them as parameters, each acting on the object heap only;
  an array method and \<open>objectPath.set\<close> may raise.
  \<open>lib_validator schema\<close> is the compiled validator: it returns its verdict and its
  \<open>errors\<close> list.  \<open>_addOperation\<close> is called by the child traps but the Replicant class of
  src/ does not define it; it is a parameter over the operation queue the class declares.
\<close>

record ext =
  lib_clone :: "heap \<Rightarrow> jsval \<Rightarrow> jsval \<times> heap"
  lib_equal :: "heap \<Rightarrow> jsval \<Rightarrow> jsval \<Rightarrow> bool"
  lib_get :: "heap \<Rightarrow> jsval \<Rightarrow> string list \<Rightarrow> jsval"
  lib_has :: "heap \<Rightarrow> jsval \<Rightarrow> string list \<Rightarrow> bool"
  lib_set :: "heap \<Rightarrow> jsval \<Rightarrow> string list \<Rightarrow> jsval \<Rightarrow> (error + jsval) \<times> heap"
  lib_arrayMethod :: "string \<Rightarrow> heap \<Rightarrow> jsval \<Rightarrow> jsval list \<Rightarrow> (error + jsval) \<times> heap"
  lib_validator :: "jsval \<Rightarrow> heap \<Rightarrow> jsval \<Rightarrow> bool \<times> validation_error list"
  lib_toString :: "heap \<Rightarrow> jsval \<Rightarrow> string"
  lib_stringify :: "heap \<Rightarrow> jsval \<Rightarrow> string"
  lib_addOperation :: "operation list \<Rightarrow> operation \<Rightarrow> error + operation list"

section \<open>readReplicant (shared.ts)\<close>

definition readReplicant :: "nat \<Rightarrow> jsval \<Rightarrow> jsval \<Rightarrow> callback \<Rightarrow> state \<Rightarrow> (error + unit) \<times> state" where
  "readReplicant sock nm ns cb st =
     (if \<not> truthy nm \<or> typeof nm \<noteq> ''string'' then
        (Inl (Error ''Must supply a name when reading a Replicant''), st)
      else if \<not> truthy ns \<or> typeof ns \<noteq> ''string'' then
        (Inl (Error ''Must supply a namespace when reading a Replicant''), st)
      else (Inr (), socket_emit sock ''replicant:read'' (ReadPayload nm ns) (Some cb) st))"

section \<open>Replicant: validation\<close>

definition dquote :: string where
  "dquote = [CHR 0x22]"

definition newline :: string where
  "newline = [CHR 0x0A]"

definition tab :: string where
  "tab = [CHR 0x09]"

text \<open>\<open>error.field.replace(/^data\./, '')\<close>.\<close>

definition strip_data :: "string \<Rightarrow> string" where
  "strip_data field = (if take 5 field = ''data.'' then drop 5 field else field)"

text \<open>The text one iteration of the \<open>forEach\<close> callback appends to \<open>errorMessage\<close>.\<close>

definition validate_errorLine :: "ext \<Rightarrow> heap \<Rightarrow> validation_error \<Rightarrow> string" where
  "validate_errorLine E h error =
     (let field = strip_data (ve_field error) in
      if ve_message error = ''is the wrong type'' then
        tab @ ''Field '' @ dquote @ field @ dquote @ '' '' @ ve_message error
          @ ''. Value '' @ dquote @ lib_toString E h (ve_value error) @ dquote
          @ '' (type: '' @ typeof (ve_value error) @ '') was provided, expected type ''
          @ dquote @ ve_type error @ dquote @ newline @ '' ''
      else if ve_message error = ''has additional properties'' then
        tab @ ''Field '' @ dquote @ field @ dquote @ '' '' @ ve_message error
          @ '': '' @ dquote @ lib_toString E h (ve_value error) @ dquote @ newline
      else
        tab @ ''Field '' @ dquote @ field @ dquote @ '' '' @ ve_message error @ newline)"

text \<open>
  The loop over \<open>this._validator.errors\<close>.  The \<open>throw\<close> is the last statement of the
  callback, so the first iteration ends the loop: the remaining errors are never visited.
\<close>

fun validate_forEach :: "ext \<Rightarrow> heap \<Rightarrow> string \<Rightarrow> validation_error list \<Rightarrow> error + string" where
  "validate_forEach E h errorMessage [] = Inr errorMessage"
| "validate_forEach E h errorMessage (error # rest) =
     Inl (Error (errorMessage @ validate_errorLine E h error))"

definition validate_header :: "Replicant \<Rightarrow> string" where
  "validate_header r =
     ''Invalid value rejected for replicant '' @ dquote @ name r @ dquote
       @ '' in namespace '' @ dquote @ namespace r @ dquote @ '':'' @ newline"

definition Replicant_validate :: "ext \<Rightarrow> rid \<Rightarrow> jsval \<Rightarrow> bool \<Rightarrow> state \<Rightarrow> (error + bool) \<times> state" where
  "Replicant_validate E this v throwOnInvalid st =
     (case validator (replicants st ! this) of
        None \<Rightarrow> (Inr True, st)
      | Some compiled \<Rightarrow>
          (case lib_validator E compiled (heap st) v of
             (result, errors) \<Rightarrow>
               if result then (Inr True, st)
               else
                 (let st1 = upd_rep this (\<lambda>r. r\<lparr>validationErrors := errors\<rparr>) st in
                  if throwOnInvalid then
                    (case validate_forEach E (heap st) (validate_header (replicants st ! this)) errors of
                       Inl e \<Rightarrow> (Inl e, st1)
                     | Inr m \<Rightarrow> (Inr result, st1))
                  else (Inr result, st1))))"

section \<open>Mutation interception layer (shared.ts)\<close>

definition ownerMessage :: "string \<Rightarrow> string \<Rightarrow> string \<Rightarrow> string" where
  "ownerMessage ns nm json =
     ''This object belongs to another Replicant, '' @ ns @ ''::'' @ nm @ ''.'' @ newline
       @ ''A given object cannot belong to multiple Replicants. Object value:'' @ newline @ json"

text \<open>\<open>proxyMetadataMap.get\<close>: the Metadata object shared with the raw target.\<close>

definition proxyMetadataMap_get :: "state \<Rightarrow> addr \<Rightarrow> Metadata option" where
  "proxyMetadataMap_get st p =
     (case map_of (proxyMetadataMap st) p of
        None \<Rightarrow> None
      | Some raw \<Rightarrow> map_of (metadataMap st) raw)"

definition metadataMap_has :: "state \<Rightarrow> addr \<Rightarrow> bool" where
  "metadataMap_has st a = (case map_of (metadataMap st) a of None \<Rightarrow> False | Some m \<Rightarrow> True)"

text \<open>
  The Metadata that \<open>assertSingleOwner\<close> finds for a value: through \<open>proxyMetadataMap\<close>
  when the value is a proxy, through \<open>metadataMap\<close> when it is a registered raw object,
  none otherwise.
\<close>

definition node_metadata :: "state \<Rightarrow> addr \<Rightarrow> Metadata option" where
  "node_metadata st a =
     (if List.member (proxySet st) a then proxyMetadataMap_get st a
      else if metadataMap_has st a then map_of (metadataMap st) a
      else None)"

definition assertSingleOwner :: "ext \<Rightarrow> rid \<Rightarrow> addr \<Rightarrow> state \<Rightarrow> error + unit" where
  "assertSingleOwner E replicant a st =
     (case node_metadata st a of
        None \<Rightarrow> Inr ()
      | Some metadata \<Rightarrow>
          if md_replicant metadata \<noteq> replicant then
            Inl (Error (ownerMessage
                   (namespace (replicants st ! md_replicant metadata))
                   (name (replicants st ! md_replicant metadata))
                   (lib_stringify E (heap st) (Ref a))))
          else Inr ())"

text \<open>
  The statements applied to \<open>targetClone\<close> before validating the clone: an assignment or
  a \<open>delete\<close> on a plain value (strict mode: a property cannot be created on a primitive).
\<close>

definition assign_raw :: "string \<Rightarrow> jsval \<Rightarrow> jsval \<Rightarrow> heap \<Rightarrow> (error + unit) \<times> heap" where
  "assign_raw prop newValue target h =
     (case target of
        Ref a \<Rightarrow> (Inr (), write_prop h a prop newValue)
      | _ \<Rightarrow> (Inl (TypeError ''Cannot set properties of a value that is not an object''), h))"

definition delete_raw :: "string \<Rightarrow> jsval \<Rightarrow> heap \<Rightarrow> (error + unit) \<times> heap" where
  "delete_raw prop target h =
     (case target of
        Ref a \<Rightarrow> (Inr (), remove_prop h a prop)
      | Undefined \<Rightarrow> (Inl (TypeError ''Cannot convert undefined or null to object''), h)
      | Null \<Rightarrow> (Inl (TypeError ''Cannot convert undefined or null to object''), h)
      | _ \<Rightarrow> (Inr (), h))"

text \<open>
  The block \<open>if (replicant.schema) { ... replicant.validate(valueClone) }\<close> that the set
  and delete traps share; \<open>change\<close> is the statement applied to \<open>targetClone\<close>.
\<close>

definition trap_validate ::
  "ext \<Rightarrow> rid \<Rightarrow> string \<Rightarrow> (jsval \<Rightarrow> heap \<Rightarrow> (error + unit) \<times> heap) \<Rightarrow> state \<Rightarrow> (error + unit) \<times> state" where
  "trap_validate E replicant path change st =
     (if truthy (schema (replicants st ! replicant)) then
        (case lib_clone E (heap st) (val (replicants st ! replicant)) of
           (valueClone, h1) \<Rightarrow>
             (case change (lib_get E h1 valueClone (pathStrToPathArr path)) h1 of
                (Inl e, h2) \<Rightarrow> (Inl e, st\<lparr>heap := h2\<rparr>)
              | (Inr u, h2) \<Rightarrow>
                  (case Replicant_validate E replicant valueClone True (st\<lparr>heap := h2\<rparr>) of
                     (Inl e, st1) \<Rightarrow> (Inl e, st1)
                   | (Inr ok, st1) \<Rightarrow> (Inr (), st1))))
      else (Inr (), st))"

definition trap_addOperation ::
  "ext \<Rightarrow> rid \<Rightarrow> string \<Rightarrow> string \<Rightarrow> operation_args \<Rightarrow> state \<Rightarrow> (error + bool) \<times> state" where
  "trap_addOperation E replicant path method args st =
     (case lib_addOperation E (operationQueue (replicants st ! replicant))
             \<lparr>op_path = path, op_method = method, op_args = args, op_result = Undefined\<rparr> of
        Inl e \<Rightarrow> (Inl e, st)
      | Inr q \<Rightarrow> (Inr True, upd_rep replicant (\<lambda>r. r\<lparr>operationQueue := q\<rparr>) st))"

text \<open>The \<open>set\<close> trap of a child handler (the array and the object handler have the same one).\<close>

definition childSet :: "ext \<Rightarrow> addr \<Rightarrow> string \<Rightarrow> jsval \<Rightarrow> state \<Rightarrow> (error + bool) \<times> state" where
  "childSet E target prop newValue st =
     (if read_prop (heap st) target prop = newValue then (Inr True, st)
      else
        (case map_of (metadataMap st) target of
           None \<Rightarrow> (Inr False, st)
         | Some metadata \<Rightarrow>
             if ignoreProxy (replicants st ! md_replicant metadata) then
               (Inr True, st\<lparr>heap := write_prop (heap st) target prop newValue\<rparr>)
             else
               (case trap_validate E (md_replicant metadata) (md_path metadata)
                       (assign_raw prop newValue) st of
                  (Inl e, st1) \<Rightarrow> (Inl e, st1)
                | (Inr u, st1) \<Rightarrow>
                    if hasOwnProperty (heap st1) target prop then
                      trap_addOperation E (md_replicant metadata) (md_path metadata) ''update''
                        (PropArgs prop newValue) st1
                    else
                      trap_addOperation E (md_replicant metadata) (md_path metadata) ''add''
                        (PropArgs prop newValue) st1)))"

text \<open>\<open>getDeleteTrap\<close>.\<close>

definition deleteTrap :: "ext \<Rightarrow> addr \<Rightarrow> string \<Rightarrow> state \<Rightarrow> (error + bool) \<times> state" where
  "deleteTrap E target prop st =
     (case map_of (metadataMap st) target of
        None \<Rightarrow> (Inr False, st)
      | Some metadata \<Rightarrow>
          if ignoreProxy (replicants st ! md_replicant metadata) then
            (Inr True, st\<lparr>heap := remove_prop (heap st) target prop\<rparr>)
          else if hasOwnProperty (heap st) target prop then (Inr True, st)
          else
            (case trap_validate E (md_replicant metadata) (md_path metadata) (delete_raw prop) st of
               (Inl e, st1) \<Rightarrow> (Inl e, st1)
             | (Inr u, st1) \<Rightarrow>
                 trap_addOperation E (md_replicant metadata) (md_path metadata) ''delete''
                   (PropArgs prop Undefined) st1))"

text \<open>
  The \<open>get\<close> traps, on a data property (functions are not values of the model, so the
  branches that bind a method or intercept an array mutator do not arise).
\<close>

definition childArrayGet :: "state \<Rightarrow> addr \<Rightarrow> string \<Rightarrow> jsval" where
  "childArrayGet st target prop =
     (case map_of (metadataMap st) target of
        None \<Rightarrow> Undefined
      | Some metadata \<Rightarrow> read_prop (heap st) target prop)"

definition childObjectGet :: "state \<Rightarrow> addr \<Rightarrow> string \<Rightarrow> jsval" where
  "childObjectGet st target prop = read_prop (heap st) target prop"

text \<open>
  Property access through a reference, \<open>value[key]\<close>, \<open>value[key] = v\<close> and
  \<open>delete target[prop]\<close>: through the traps when the reference is a proxy.  A trap that
  returns false makes the strict-mode statement raise a TypeError.
\<close>

definition get_prop :: "state \<Rightarrow> addr \<Rightarrow> string \<Rightarrow> jsval" where
  "get_prop st a key =
     (case cell_at (heap st) a of
        Some (ProxyOf target) \<Rightarrow>
          if isArray (heap st) target then childArrayGet st target key
          else childObjectGet st target key
      | _ \<Rightarrow> read_prop (heap st) a key)"

definition assign_prop :: "ext \<Rightarrow> addr \<Rightarrow> string \<Rightarrow> jsval \<Rightarrow> state \<Rightarrow> (error + unit) \<times> state" where
  "assign_prop E a key v st =
     (case cell_at (heap st) a of
        Some (ProxyOf target) \<Rightarrow>
          (case childSet E target key v st of
             (Inl e, st1) \<Rightarrow> (Inl e, st1)
           | (Inr ok, st1) \<Rightarrow>
               if ok then (Inr (), st1)
               else (Inl (TypeError ''set on proxy: trap returned falsish''), st1))
      | _ \<Rightarrow> (Inr (), st\<lparr>heap := write_prop (heap st) a key v\<rparr>))"

definition delete_prop :: "ext \<Rightarrow> jsval \<Rightarrow> string \<Rightarrow> state \<Rightarrow> (error + jsval) \<times> state" where
  "delete_prop E target prop st =
     (case target of
        Ref a \<Rightarrow>
          (case cell_at (heap st) a of
             Some (ProxyOf raw) \<Rightarrow>
               (case deleteTrap E raw prop st of
                  (Inl e, st1) \<Rightarrow> (Inl e, st1)
                | (Inr ok, st1) \<Rightarrow>
                    if ok then (Inr (JBool True), st1)
                    else (Inl (TypeError ''deleteProperty on proxy: trap returned falsish''), st1))
           | _ \<Rightarrow> (Inr (JBool True), st\<lparr>heap := remove_prop (heap st) a prop\<rparr>))
      | Undefined \<Rightarrow> (Inl (TypeError ''Cannot convert undefined or null to object''), st)
      | Null \<Rightarrow> (Inl (TypeError ''Cannot convert undefined or null to object''), st)
      | _ \<Rightarrow> (Inr (JBool True), st))"

text \<open>The keys that \<open>for (const key in value)\<close> visits: the own keys of the object behind \<open>value\<close>.\<close>

definition own_keys :: "heap \<Rightarrow> addr \<Rightarrow> string list" where
  "own_keys h a = map fst (own_props h (target_of h a))"

text \<open>
  \<open>proxyRecursive\<close>, lines 276 to 302: reuse the proxy of a value that is one or has one,
  refreshing the recorded path, or create and register a new proxy.
\<close>

definition set_md_path :: "addr \<Rightarrow> string \<Rightarrow> state \<Rightarrow> state" where
  "set_md_path raw path st =
     st\<lparr>metadataMap := AList.map_entry raw (\<lambda>m. m\<lparr>md_path := path\<rparr>) (metadataMap st)\<rparr>"

definition proxyRecursive_wrap :: "rid \<Rightarrow> addr \<Rightarrow> string \<Rightarrow> state \<Rightarrow> jsval \<times> state" where
  "proxyRecursive_wrap replicant a path st =
     (if List.member (proxySet st) a then
        (Ref a, (case map_of (proxyMetadataMap st) a of
                   None \<Rightarrow> st
                 | Some raw \<Rightarrow> set_md_path raw path st))
      else if metadataMap_has st a then
        (case map_of (metadataMap st) a of
           None \<Rightarrow> (Undefined, st)
         | Some metadata \<Rightarrow> (Ref (md_proxy metadata), set_md_path a path st))
      else
        (let p = length (heap st) in
         (Ref p,
          st\<lparr>heap := heap st @ [ProxyOf a],
             proxySet := p # proxySet st,
             metadataMap := (a, \<lparr>md_replicant = replicant, md_path = path, md_proxy = p\<rparr>) # metadataMap st,
             proxyMetadataMap := (p, a) # proxyMetadataMap st\<rparr>)))"

text \<open>
  The loop over the keys, with the recursive call as a parameter.  Each pass reads
  \<open>value[key]\<close>, wraps it under the extended path and stores the result back.
\<close>

fun proxyRecursive_loop ::
  "(jsval \<Rightarrow> string \<Rightarrow> state \<Rightarrow> (error + jsval) \<times> state) \<Rightarrow> ext \<Rightarrow> addr \<Rightarrow> string \<Rightarrow> string list
     \<Rightarrow> state \<Rightarrow> (error + unit) \<times> state" where
  "proxyRecursive_loop recur E a path [] st = (Inr (), st)"
| "proxyRecursive_loop recur E a path (key # keys) st =
     (case recur (get_prop st a key)
             (if path \<noteq> [] then joinPathParts path (tokenize key) else tokenize key) st of
        (Inl e, st1) \<Rightarrow> (Inl e, st1)
      | (Inr child, st1) \<Rightarrow>
          (case assign_prop E a key child st1 of
             (Inl e, st2) \<Rightarrow> (Inl e, st2)
           | (Inr u, st2) \<Rightarrow> proxyRecursive_loop recur E a path keys st2))"

text \<open>
  \<open>proxyRecursive\<close>.  The first argument is the number of stack frames left: the recursion
  follows the object graph, which may be cyclic, and the engine ends a recursion that
  exhausts the stack with a RangeError.
\<close>

primrec proxyRecursive ::
  "nat \<Rightarrow> ext \<Rightarrow> rid \<Rightarrow> jsval \<Rightarrow> string \<Rightarrow> state \<Rightarrow> (error + jsval) \<times> state" where
  "proxyRecursive 0 E replicant v path st =
     (Inl (RangeError ''Maximum call stack size exceeded''), st)"
| "proxyRecursive (Suc n) E replicant v path st =
     (case v of
        Ref a \<Rightarrow>
          (case assertSingleOwner E replicant a st of
             Inl e \<Rightarrow> (Inl e, st)
           | Inr u \<Rightarrow>
               (case proxyRecursive_wrap replicant a path st of
                  (p, st1) \<Rightarrow>
                    (case proxyRecursive_loop (proxyRecursive n E replicant) E a path
                            (own_keys (heap st1) a) st1 of
                       (Inl e, st2) \<Rightarrow> (Inl e, st2)
                     | (Inr u, st2) \<Rightarrow> (Inr p, st2))))
      | _ \<Rightarrow> (Inr v, st))"

section \<open>applyOperation (shared.ts)\<close>

definition set_ignoreProxy :: "rid \<Rightarrow> bool \<Rightarrow> state \<Rightarrow> state" where
  "set_ignoreProxy replicant b st = upd_rep replicant (\<lambda>r. r\<lparr>ignoreProxy := b\<rparr>) st"

definition applyOperation ::
  "nat \<Rightarrow> ext \<Rightarrow> rid \<Rightarrow> operation \<Rightarrow> state \<Rightarrow> (error + jsval) \<times> state" where
  "applyOperation n E replicant operation st =
     (if \<not> truthy (val (replicants st ! replicant)) then
        (Inl (Error ''applyOperation called with Replicant with undefined value''), st)
      else
        (let st1 = set_ignoreProxy replicant True st;
             path = pathStrToPathArr (op_path operation);
             v = val (replicants st1 ! replicant)
         in
         if List.member ARRAY_MUTATOR_METHODS (op_method operation) then
           (let arr = lib_get E (heap st1) v path in
            case lib_arrayMethod E (op_method operation) (heap st1) arr
                   (args_list (op_args operation)) of
              (Inl e, h) \<Rightarrow> (Inl e, st1\<lparr>heap := h\<rparr>)
            | (Inr result, h) \<Rightarrow>
                (case proxyRecursive n E replicant arr (op_path operation) (st1\<lparr>heap := h\<rparr>) of
                   (Inl e, st2) \<Rightarrow> (Inl e, st2)
                 | (Inr p, st2) \<Rightarrow> (Inr result, set_ignoreProxy replicant False st2)))
         else if op_method operation = ''add'' \<or> op_method operation = ''update'' then
           (case (if typeof (args_newValue (op_args operation)) = ''object'' then
                    proxyRecursive n E replicant (args_newValue (op_args operation))
                      (pathArrToPathStr (path @ [args_prop (op_args operation)])) st1
                  else (Inr (args_newValue (op_args operation)), st1)) of
              (Inl e, st2) \<Rightarrow> (Inl e, st2)
            | (Inr newValue, st2) \<Rightarrow>
                (case lib_set E (heap st2) v (path @ [args_prop (op_args operation)]) newValue of
                   (Inl e, h) \<Rightarrow> (Inl e, st2\<lparr>heap := h\<rparr>)
                 | (Inr result, h) \<Rightarrow>
                     (Inr result, set_ignoreProxy replicant False (st2\<lparr>heap := h\<rparr>))))
         else if op_method operation = ''delete'' then
           (if path = [] \<or> lib_has E (heap st1) v path then
              (case delete_prop E (lib_get E (heap st1) v path) (args_prop (op_args operation)) st1 of
                 (Inl e, st2) \<Rightarrow> (Inl e, st2)
               | (Inr result, st2) \<Rightarrow> (Inr result, set_ignoreProxy replicant False st2))
            else (Inr Undefined, set_ignoreProxy replicant False st1))
         else
           (Inl (Error (''Unexpected operation method '' @ dquote @ op_method operation @ dquote)),
            st1)))"

section \<open>Replicant (the class)\<close>

definition Replicant_queueAction :: "rid \<Rightarrow> action_fn \<Rightarrow> jsval list \<Rightarrow> state \<Rightarrow> state" where
  "Replicant_queueAction this fn args st =
     upd_rep this (\<lambda>r. r\<lparr>actionQueue := actionQueue r @ [(fn, args)]\<rparr>) st"

definition Replicant_proposeAssignment :: "rid \<Rightarrow> jsval \<Rightarrow> state \<Rightarrow> state" where
  "Replicant_proposeAssignment this newValue st =
     (let r = replicants st ! this in
      socket_emit (socket r) ''replicant:proposeAssignment''
        (ProposePayload (name r) (namespace r) newValue (schemaSum r) (opts r))
        (Some (ProposeAssignmentCallback this)) st)"

text \<open>The acknowledgement callback of \<open>replicant:proposeAssignment\<close>.\<close>

definition proposeAssignmentCallback :: "ext \<Rightarrow> rid \<Rightarrow> ackData \<Rightarrow> state \<Rightarrow> (error + unit) \<times> state" where
  "proposeAssignmentCallback E this data st =
     (let st1 = (if truthy (a_schema data)
                 then upd_rep this (\<lambda>r. r\<lparr>schema := a_schema data, schemaSum := a_schemaSum data\<rparr>) st
                 else st)
      in if truthy (a_rejectReason data) then
           (if 0 < listenerCount this ''assignmentRejected'' st1 then
              (Inr (), emit_event this ''assignmentRejected'' [ArgValue (a_rejectReason data)] st1)
            else (Inl (Error (lib_toString E (heap st1) (a_rejectReason data))), st1))
         else (Inr (), st1))"

definition Replicant_assignValue ::
  "nat \<Rightarrow> ext \<Rightarrow> rid \<Rightarrow> jsval \<Rightarrow> int option \<Rightarrow> state \<Rightarrow> (error + unit) \<times> state" where
  "Replicant_assignValue n E this newValue rv st =
     (case lib_clone E (heap st) (val (replicants st ! this)) of
        (oldValue, h) \<Rightarrow>
          (case proxyRecursive n E this newValue ''/'' (st\<lparr>heap := h\<rparr>) of
             (Inl e, st1) \<Rightarrow> (Inl e, st1)
           | (Inr p, st1) \<Rightarrow>
               (let st2 = upd_rep this (\<lambda>r. r\<lparr>val := p\<rparr>) st1;
                    st3 = (case rv of
                             None \<Rightarrow> st2
                           | Some k \<Rightarrow> upd_rep this (\<lambda>r. r\<lparr>revision := k\<rparr>) st2)
                in (Inr (),
                    emit_event this ''change''
                      [ArgValue (val (replicants st3 ! this)), ArgValue oldValue] st3))))"

text \<open>\<open>item.fn.apply(this, item.args)\<close> for each queued action, in queue order.\<close>

fun runActions :: "rid \<Rightarrow> (action_fn \<times> jsval list) list \<Rightarrow> state \<Rightarrow> state" where
  "runActions this [] st = st"
| "runActions this ((Fn_proposeAssignment, args) # items) st =
     runActions this items
       (Replicant_proposeAssignment this (case args of [] \<Rightarrow> Undefined | v # vs \<Rightarrow> v) st)"

definition Replicant_declare :: "rid \<Rightarrow> state \<Rightarrow> state" where
  "Replicant_declare this st =
     (if status (replicants st ! this) = Declared \<or> status (replicants st ! this) = Declaring then st
      else
        (let st1 = upd_rep this (\<lambda>r. r\<lparr>status := Declaring\<rparr>) st in
         socket_emit (socket (replicants st1 ! this)) ''joinRoom''
           (RoomPayload (''replicant:'' @ namespace (replicants st1 ! this)))
           (Some (JoinRoomCallback this)) st1))"

text \<open>The acknowledgement callback of \<open>joinRoom\<close>: it sends the declare request.\<close>

definition joinRoomCallback :: "rid \<Rightarrow> state \<Rightarrow> state" where
  "joinRoomCallback this st =
     (let r = replicants st ! this in
      socket_emit (socket r) ''replicant:declare''
        (DeclarePayload (name r) (namespace r) (opts r)) (Some (DeclareCallback this)) st)"

text \<open>The acknowledgement callback of \<open>replicant:declare\<close>.\<close>

definition declareCallback :: "nat \<Rightarrow> ext \<Rightarrow> rid \<Rightarrow> ackData \<Rightarrow> state \<Rightarrow> (error + unit) \<times> state" where
  "declareCallback n E this data st =
     (case (if truthy (a_rejectReason data) then
              (if 0 < listenerCount this ''declarationRejected'' st then
                 (Inr (), emit_event this ''declarationRejected'' [ArgValue (a_rejectReason data)] st)
               else (Inl (Error (lib_toString E (heap st) (a_rejectReason data))), st))
            else (Inr (), st)) of
        (Inl e, st0) \<Rightarrow> (Inl e, st0)
      | (Inr u, st0) \<Rightarrow>
          (let st1 = upd_rep this (\<lambda>r. r\<lparr>status := Declared\<rparr>) st0 in
           case (if Some (revision (replicants st1 ! this)) \<noteq> a_revision data
                    \<or> \<not> lib_equal E (heap st1) (val (replicants st1 ! this)) (a_value data)
                 then Replicant_assignValue n E this (a_value data) (a_revision data) st1
                 else (Inr (), st1)) of
             (Inl e, st2) \<Rightarrow> (Inl e, st2)
           | (Inr u, st2) \<Rightarrow>
               (let st3 = (if truthy (a_schema data)
                           then upd_rep this
                                  (\<lambda>r. r\<lparr>schema := a_schema data, schemaSum := a_schemaSum data,
                                         validator := Some (a_schema data)\<rparr>) st2
                           else st2);
                    st4 = emit_event this ''declared'' [ArgData data] st3;
                    st5 = (if val (replicants st4 ! this) = Undefined \<and> revision (replicants st4 ! this) = 0
                           then emit_event this ''change'' [] st4
                           else st4)
                in if actionQueue (replicants st5 ! this) \<noteq> [] then
                     (Inr (),
                      upd_rep this (\<lambda>r. r\<lparr>actionQueue := []\<rparr>)
                        (runActions this (actionQueue (replicants st5 ! this)) st5))
                   else (Inr (), st5))))"

definition Replicant_handleAssignment ::
  "nat \<Rightarrow> ext \<Rightarrow> rid \<Rightarrow> assignmentData \<Rightarrow> state \<Rightarrow> (error + unit) \<times> state" where
  "Replicant_handleAssignment n E this data st =
     (if ad_name data \<noteq> name (replicants st ! this)
         \<or> ad_namespace data \<noteq> namespace (replicants st ! this) then (Inr (), st)
      else Replicant_assignValue n E this (ad_newValue data) (ad_revision data) st)"

definition Replicant_fullUpdate :: "rid \<Rightarrow> state \<Rightarrow> (error + unit) \<times> state" where
  "Replicant_fullUpdate this st =
     readReplicant (socket (replicants st ! this)) (Str (name (replicants st ! this)))
       (Str (namespace (replicants st ! this))) (FullUpdateCallback this) st"

text \<open>The acknowledgement callback that \<open>_fullUpdate\<close> passes to \<open>readReplicant\<close>.\<close>

definition fullUpdateCallback :: "nat \<Rightarrow> ext \<Rightarrow> rid \<Rightarrow> ackData \<Rightarrow> state \<Rightarrow> (error + unit) \<times> state" where
  "fullUpdateCallback n E this data st =
     Replicant_assignValue n E this (a_value data) (a_revision data)
       (emit_event this ''fullUpdate'' [ArgData data] st)"

text \<open>
  \<open>data.operations.forEach\<close>: each operation is applied to the state its predecessors
  left and its result is stored on the record; an operation that raises ends the loop.
\<close>

fun applyOperations ::
  "nat \<Rightarrow> ext \<Rightarrow> rid \<Rightarrow> operation list \<Rightarrow> state \<Rightarrow> (error + operation list) \<times> state" where
  "applyOperations n E this [] st = (Inr [], st)"
| "applyOperations n E this (operation # rest) st =
     (case applyOperation n E this operation st of
        (Inl e, st1) \<Rightarrow> (Inl e, st1)
      | (Inr result, st1) \<Rightarrow>
          (case applyOperations n E this rest st1 of
             (Inl e, st2) \<Rightarrow> (Inl e, st2)
           | (Inr applied, st2) \<Rightarrow> (Inr (operation\<lparr>op_result := result\<rparr> # applied), st2)))"

definition Replicant_handleOperations ::
  "nat \<Rightarrow> ext \<Rightarrow> rid \<Rightarrow> operationsData \<Rightarrow> state \<Rightarrow> (error + unit) \<times> state" where
  "Replicant_handleOperations n E this data st =
     (if status (replicants st ! this) \<noteq> Declared then (Inr (), st)
      else
        (let expectedRevision = double_round (revision (replicants st ! this) + 1) in
         if od_name data \<noteq> name (replicants st ! this)
            \<or> od_namespace data \<noteq> namespace (replicants st ! this) then (Inr (), st)
         else if od_revision data \<noteq> expectedRevision then Replicant_fullUpdate this st
         else
           (case lib_clone E (heap st) (val (replicants st ! this)) of
              (oldValue, h) \<Rightarrow>
                (case applyOperations n E this (od_operations data) (st\<lparr>heap := h\<rparr>) of
                   (Inl e, st1) \<Rightarrow> (Inl e, st1)
                 | (Inr applied, st1) \<Rightarrow>
                     (let st2 = upd_rep this (\<lambda>r. r\<lparr>revision := od_revision data\<rparr>) st1
                      in (Inr (),
                          emit_event this ''change''
                            [ArgValue (val (replicants st2 ! this)), ArgValue oldValue,
                             ArgOperations applied] st2))))))"

definition Replicant_handleDisconnect :: "rid \<Rightarrow> state \<Rightarrow> state" where
  "Replicant_handleDisconnect this st =
     upd_rep this (\<lambda>r. r\<lparr>status := Undeclared, operationQueue := [], actionQueue := []\<rparr>) st"

definition Replicant_registerSocketOperations :: "rid \<Rightarrow> nat \<Rightarrow> state \<Rightarrow> state" where
  "Replicant_registerSocketOperations this sock st =
     st\<lparr>handlers := handlers st @
          [(sock, ''replicant:assignment'', HandleAssignment this),
           (sock, ''replicant:operations'', HandleOperations this),
           (sock, ''disconnect'', HandleDisconnect this),
           (sock, ''reconnect'', HandleReconnect this)]\<rparr>"

text \<open>
  The three accesses of the constructor to the registry.  \<open>names_write k v N\<close> is the
  assignment \<open>N[k] = v\<close> on an object of names and \<open>registry_write k N R\<close> the assignment
  \<open>declaredReplicants[k] = N\<close>: an own property is overwritten; otherwise the assignment
  goes up the prototype chain, where a handle traps it, and at \<open>Object.prototype\<close> the key
  \<open>__proto__\<close> finds the setter that replaces the prototype of the object assigned to,
  while any other key becomes a new own property (as it does when an object of names on
  the chain has it as its own).
\<close>

definition names_write :: "string \<Rightarrow> rid \<Rightarrow> names_object \<Rightarrow> outside + names_object" where
  "names_write k v N =
     (if map_of (own_names N) k \<noteq> None then
        Inr (N\<lparr>own_names := AList.update k v (own_names N)\<rparr>)
      else
        (case names_proto N of
           Some h \<Rightarrow> Inl (Trapped h k)
         | None \<Rightarrow>
             if k = ''__proto__'' then Inr (N\<lparr>names_proto := Some v\<rparr>)
             else Inr (N\<lparr>own_names := AList.update k v (own_names N)\<rparr>)))"

definition registry_write ::
  "string \<Rightarrow> names_object \<Rightarrow> registry_object \<Rightarrow> outside + registry_object" where
  "registry_write k N R =
     (if map_of (own_namespaces R) k \<noteq> None then
        Inr (R\<lparr>own_namespaces := AList.update k N (own_namespaces R)\<rparr>)
      else
        (case registry_proto R of
           None \<Rightarrow>
             if k = ''__proto__'' then Inr (R\<lparr>registry_proto := Some N\<rparr>)
             else Inr (R\<lparr>own_namespaces := AList.update k N (own_namespaces R)\<rparr>)
         | Some P \<Rightarrow>
             if map_of (own_names P) k \<noteq> None then
               Inr (R\<lparr>own_namespaces := AList.update k N (own_namespaces R)\<rparr>)
             else
               (case names_proto P of
                  Some h \<Rightarrow> Inl (Trapped h k)
                | None \<Rightarrow>
                    if k = ''__proto__'' then Inr (R\<lparr>registry_proto := Some N\<rparr>)
                    else Inr (R\<lparr>own_namespaces := AList.update k N (own_namespaces R)\<rparr>))))"

text \<open>
  \<open>declaredReplicants[namespace][name] = proxy\<close>.  The read \<open>declaredReplicants[namespace]\<close>
  yields the own property; without one it goes up the chain: an object of names that has
  the key as its own yields the handle stored there (and the write reaches the \<open>set\<close> trap
  of that handle), a handle on the chain traps the read, and at \<open>Object.prototype\<close> the
  key \<open>__proto__\<close> yields the prototype of the registry.
\<close>

definition registry_register ::
  "string \<Rightarrow> string \<Rightarrow> rid \<Rightarrow> registry_object \<Rightarrow> outside + registry_object" where
  "registry_register ns nm proxy R =
     (case map_of (own_namespaces R) ns of
        Some N \<Rightarrow>
          (case names_write nm proxy N of
             Inl out \<Rightarrow> Inl out
           | Inr N' \<Rightarrow> Inr (R\<lparr>own_namespaces := AList.update ns N' (own_namespaces R)\<rparr>))
      | None \<Rightarrow>
          (case registry_proto R of
             None \<Rightarrow> Inl (Foreign ns)
           | Some P \<Rightarrow>
               (case map_of (own_names P) ns of
                  Some h \<Rightarrow> Inl (Trapped h nm)
                | None \<Rightarrow>
                    (case names_proto P of
                       Some h \<Rightarrow> Inl (Trapped h ns)
                     | None \<Rightarrow>
                         if ns = ''__proto__'' then
                           (case names_write nm proxy P of
                              Inl out \<Rightarrow> Inl out
                            | Inr P' \<Rightarrow> Inr (R\<lparr>registry_proto := Some P'\<rparr>))
                         else Inl (Foreign ns)))))"

text \<open>
  The constructor.  \<open>new\<close> allocates the object and the first statements fill its fields;
  the registry is consulted next (\<open>hasOwnProperty\<close> on the registry, then on the object of
  the namespace), and a registered pair returns the registered handle.
  \<open>Replicant_construct\<close> is the rest of the constructor, from the option defaults on.  A
  result \<open>Inl out\<close> is an access to the registry that left it; the state returned with it
  is the one before that access.
\<close>

definition Replicant_new :: "string \<Rightarrow> string \<Rightarrow> nat \<Rightarrow> nat \<Rightarrow> Replicant" where
  "Replicant_new nm ns o_ref sock =
     \<lparr>name = nm, namespace = ns, val = Undefined, opts = o_ref, revision = 0,
      status = Undeclared, operationQueue = [], actionQueue = [], socket = sock,
      schema = Undefined, schemaSum = [], validationErrors = [], validator = None,
      ignoreProxy = False, listeners = []\<rparr>"

definition opts_defaults :: "ReplicantOptions \<Rightarrow> ReplicantOptions" where
  "opts_defaults o_val =
     o_val\<lparr>persistent := (case persistent o_val of None \<Rightarrow> Some True | Some b \<Rightarrow> Some b),
           persistenceInterval :=
             (case persistenceInterval o_val of
                None \<Rightarrow> Some DEFAULT_PERSISTENCE_INTERVAL
              | Some k \<Rightarrow> Some k)\<rparr>"

definition Replicant_construct ::
  "rid \<Rightarrow> string \<Rightarrow> string \<Rightarrow> nat \<Rightarrow> nat \<Rightarrow> state \<Rightarrow> (outside + rid) \<times> state" where
  "Replicant_construct this nm ns o_ref sock st =
     (let st1 = st\<lparr>optsHeap := (optsHeap st)[o_ref := opts_defaults (optsHeap st ! o_ref)]\<rparr>;
          st2 = upd_rep this
                  (\<lambda>r. r\<lparr>listeners := listeners r @ [(''newListener'', ReplayOnNewListener)]\<rparr>) st1;
          st3 = Replicant_declare this st2;
          st4 = Replicant_registerSocketOperations this sock st3
      in case registry_register ns nm this (declaredReplicants st4) of
           Inl out \<Rightarrow> (Inl out, st4)
         | Inr R \<Rightarrow> (Inr this, st4\<lparr>declaredReplicants := R\<rparr>))"

definition Replicant_constructor ::
  "string \<Rightarrow> string \<Rightarrow> nat \<Rightarrow> nat \<Rightarrow> state \<Rightarrow> (outside + rid) \<times> state" where
  "Replicant_constructor nm ns o_ref sock st =
     (let this = length (replicants st);
          st1 = st\<lparr>replicants := replicants st @ [Replicant_new nm ns o_ref sock]\<rparr>
      in case map_of (own_namespaces (declaredReplicants st1)) ns of
           Some registered \<Rightarrow>
             (case map_of (own_names registered) nm of
                Some existing \<Rightarrow> (Inr existing, st1)
              | None \<Rightarrow> Replicant_construct this nm ns o_ref sock st1)
         | None \<Rightarrow>
             (case registry_write ns \<lparr>own_names = [], names_proto = None\<rparr>
                     (declaredReplicants st1) of
                Inl out \<Rightarrow> (Inl out, st1)
              | Inr R \<Rightarrow>
                  Replicant_construct this nm ns o_ref sock (st1\<lparr>declaredReplicants := R\<rparr>)))"

text \<open>\<open>Manager.newReplicant\<close> (Manager.ts): a fresh options object for every call.\<close>

definition Manager_newReplicant ::
  "nat \<Rightarrow> string \<Rightarrow> string \<Rightarrow> state \<Rightarrow> (outside + rid) \<times> state" where
  "Manager_newReplicant sock bundleName nm st =
     Replicant_constructor nm bundleName (length (optsHeap st)) sock
       (st\<lparr>optsHeap := optsHeap st @ [\<lparr>persistent = None, persistenceInterval = None\<rparr>]\<rparr>)"

text \<open>
  What the constructor's two \<open>hasOwnProperty\<close> tests find for a pair: the handle registered
  for it, if any.  \<open>names_plain\<close>: no object of names has a handle as its prototype (no
  Replicant named \<open>__proto__\<close> has been constructed).  \<open>no_own_proto\<close>: the registry and
  its prototype have no own property named \<open>__proto__\<close> (the constructor never creates
  one: its assignments to that key replace a prototype).
\<close>

definition registered :: "registry_object \<Rightarrow> string \<Rightarrow> string \<Rightarrow> rid option" where
  "registered R ns nm =
     (case map_of (own_namespaces R) ns of
        None \<Rightarrow> None
      | Some N \<Rightarrow> map_of (own_names N) nm)"

definition names_plain :: "registry_object \<Rightarrow> bool" where
  "names_plain R \<longleftrightarrow>
     list_all (\<lambda>entry. names_proto (snd entry) = None) (own_namespaces R)
     \<and> (case registry_proto R of None \<Rightarrow> True | Some P \<Rightarrow> names_proto P = None)"

definition no_own_proto :: "registry_object \<Rightarrow> bool" where
  "no_own_proto R \<longleftrightarrow>
     map_of (own_namespaces R) ''__proto__'' = None
     \<and> (case registry_proto R of
          None \<Rightarrow> True
        | Some P \<Rightarrow> map_of (own_names P) ''__proto__'' = None)"

text \<open>
  The \<open>set\<close> trap of \<open>getReplicantHandler\<close> at \<open>prop = 'value'\<close> (for any other property
  the trap is the plain assignment).
\<close>

definition replicantHandler_set_value :: "ext \<Rightarrow> rid \<Rightarrow> jsval \<Rightarrow> state \<Rightarrow> (error + bool) \<times> state" where
  "replicantHandler_set_value E target newValue st =
     (if ignoreProxy (replicants st ! target) then
        (Inr True, upd_rep target (\<lambda>r. r\<lparr>val := newValue\<rparr>) st)
      else if newValue = val (replicants st ! target) then (Inr True, st)
      else
        (case Replicant_validate E target newValue True st of
           (Inl e, st1) \<Rightarrow> (Inl e, st1)
         | (Inr ok, st1) \<Rightarrow>
             if status (replicants st1 ! target) \<noteq> Declared then
               (Inr True, Replicant_queueAction target Fn_proposeAssignment [newValue] st1)
             else (Inr True, Replicant_proposeAssignment target newValue st1)))"

section \<open>What wrapping and applying operations leave alone\<close>

text \<open>
  The part of the store outside the object heap and the node metadata: the logs, the
  registry, the options and every Replicant's fields other than the three that the traps
  and \<open>applyOperation\<close> write (\<open>validationErrors\<close>, the operation queue and the
  suppression flag).
\<close>

definition rep_frame :: "Replicant \<Rightarrow> Replicant" where
  "rep_frame r = r\<lparr>validationErrors := [], operationQueue := [], ignoreProxy := False\<rparr>"

definition frame ::
  "state \<Rightarrow> Replicant list \<times> (rid \<times> string \<times> event_arg list) list \<times> message list
     \<times> (nat \<times> string \<times> handler) list \<times> registry_object \<times> ReplicantOptions list" where
  "frame st =
     (map rep_frame (replicants st), events st, emitted st, handlers st, declaredReplicants st,
      optsHeap st)"


section \<open>A reference environment\<close>

text \<open>
  A small executable instance of the parameters, used only to run the model on examples;
  every general theorem below holds for all environments.  It copies and compares
  structurally, resolves a path along existing members and implements \<open>push\<close> and
  \<open>pop\<close>; a schema is an object that maps a member name to the name of its type; objects
  are rendered without their members.
\<close>

fun clone_props ::
  "(heap \<Rightarrow> jsval \<Rightarrow> jsval \<times> heap) \<Rightarrow> heap \<Rightarrow> (string \<times> jsval) list \<Rightarrow> (string \<times> jsval) list \<times> heap" where
  "clone_props recur h [] = ([], h)"
| "clone_props recur h (kv # ps) =
     (case recur h (snd kv) of
        (v, h1) \<Rightarrow> (case clone_props recur h1 ps of (ps1, h2) \<Rightarrow> ((fst kv, v) # ps1, h2)))"

primrec clone_depth :: "nat \<Rightarrow> heap \<Rightarrow> jsval \<Rightarrow> jsval \<times> heap" where
  "clone_depth 0 h v = (v, h)"
| "clone_depth (Suc n) h v =
     (case v of
        Ref a \<Rightarrow>
          (case clone_props (clone_depth n) h (own_props h (target_of h a)) of
             (ps, h1) \<Rightarrow> (Ref (length h1), h1 @ [Plain (isArray h (target_of h a)) ps]))
      | _ \<Rightarrow> (v, h))"

definition clone0 :: "heap \<Rightarrow> jsval \<Rightarrow> jsval \<times> heap" where
  "clone0 h v = clone_depth (Suc (length h)) h v"

primrec equal_depth :: "nat \<Rightarrow> heap \<Rightarrow> jsval \<Rightarrow> jsval \<Rightarrow> bool" where
  "equal_depth 0 h x y = (x = y)"
| "equal_depth (Suc n) h x y =
     (case x of
        Ref a \<Rightarrow>
          (case y of
             Ref b \<Rightarrow>
               list_all2 (\<lambda>p q. fst p = fst q \<and> equal_depth n h (snd p) (snd q))
                 (own_props h (target_of h a)) (own_props h (target_of h b))
           | _ \<Rightarrow> False)
      | _ \<Rightarrow> x = y)"

definition equal0 :: "heap \<Rightarrow> jsval \<Rightarrow> jsval \<Rightarrow> bool" where
  "equal0 h x y = equal_depth (Suc (length h)) h x y"

fun get0 :: "heap \<Rightarrow> jsval \<Rightarrow> string list \<Rightarrow> jsval" where
  "get0 h v [] = v"
| "get0 h v (k # ks) =
     (case v of Ref a \<Rightarrow> get0 h (read_prop h (target_of h a) k) ks | _ \<Rightarrow> Undefined)"

fun has0 :: "heap \<Rightarrow> jsval \<Rightarrow> string list \<Rightarrow> bool" where
  "has0 h v [] = truthy v"
| "has0 h v (k # ks) =
     (case v of
        Ref a \<Rightarrow> hasOwnProperty h (target_of h a) k \<and> has0 h (read_prop h (target_of h a) k) ks
      | _ \<Rightarrow> False)"

fun set0 :: "heap \<Rightarrow> jsval \<Rightarrow> string list \<Rightarrow> jsval \<Rightarrow> (error + jsval) \<times> heap" where
  "set0 h v [] x = (Inr v, h)"
| "set0 h v [k] x =
     (case v of
        Ref a \<Rightarrow> (Inr (read_prop h (target_of h a) k), write_prop h (target_of h a) k x)
      | _ \<Rightarrow> (Inr Undefined, h))"
| "set0 h v (k # ks) x =
     (case v of
        Ref a \<Rightarrow> set0 h (read_prop h (target_of h a) k) ks x
      | _ \<Rightarrow> (Inr Undefined, h))"

function show_nat :: "nat \<Rightarrow> string" where
  "show_nat n =
     (if n < 10 then [char_of (48 + n)] else show_nat (n div 10) @ [char_of (48 + n mod 10)])"
  by pat_completeness auto
termination
  by (relation "measure id") auto

definition show_int :: "int \<Rightarrow> string" where
  "show_int i = (if i < 0 then ''-'' @ show_nat (nat (- i)) else show_nat (nat i))"

definition arrayMethod0 :: "string \<Rightarrow> heap \<Rightarrow> jsval \<Rightarrow> jsval list \<Rightarrow> (error + jsval) \<times> heap" where
  "arrayMethod0 method h arr args =
     (case arr of
        Ref a \<Rightarrow>
          (let t = target_of h a; ps = own_props h t in
           if method = ''push'' then
             (Inr (Num (int (length ps + length args))),
              h[t := Plain True
                       (ps @ zip (map show_nat [length ps ..< length ps + length args]) args)])
           else if method = ''pop'' then
             (if ps = [] then (Inr Undefined, h)
              else (Inr (snd (last ps)), h[t := Plain True (butlast ps)]))
           else (Inl (TypeError ''array method outside the reference environment''), h))
      | _ \<Rightarrow> (Inl (TypeError ''Cannot read properties of a value that is not an object''), h))"

definition validator0 :: "jsval \<Rightarrow> heap \<Rightarrow> jsval \<Rightarrow> bool \<times> validation_error list" where
  "validator0 sch h v =
     (case sch of
        Ref s \<Rightarrow>
          (let errors =
                 concat (map (\<lambda>kt. case snd kt of
                                  Str ty \<Rightarrow>
                                    if typeof (get0 h v [fst kt]) = ty then []
                                    else [\<lparr>ve_field = ''data.'' @ fst kt,
                                           ve_message = ''is the wrong type'',
                                           ve_value = get0 h v [fst kt], ve_type = ty\<rparr>]
                                | _ \<Rightarrow> [])
                        (own_props h s))
           in (errors = [], errors))
      | _ \<Rightarrow> (True, []))"

fun toString0 :: "heap \<Rightarrow> jsval \<Rightarrow> string" where
  "toString0 h Undefined = ''undefined''"
| "toString0 h Null = ''null''"
| "toString0 h (JBool b) = (if b then ''true'' else ''false'')"
| "toString0 h (Num i) = show_int i"
| "toString0 h (Str s) = s"
| "toString0 h (Ref a) = ''[object Object]''"

fun stringify0 :: "heap \<Rightarrow> jsval \<Rightarrow> string" where
  "stringify0 h (Str s) = dquote @ s @ dquote"
| "stringify0 h (Ref a) = (if isArray h (target_of h a) then ''[]'' else ''{}'')"
| "stringify0 h v = toString0 h v"

definition addOperation0 :: "operation list \<Rightarrow> operation \<Rightarrow> error + operation list" where
  "addOperation0 q operation = Inr (q @ [operation])"

definition ext0 :: ext where
  "ext0 =
     \<lparr>lib_clone = clone0, lib_equal = equal0, lib_get = get0, lib_has = has0, lib_set = set0,
      lib_arrayMethod = arrayMethod0, lib_validator = validator0, lib_toString = toString0,
      lib_stringify = stringify0, lib_addOperation = addOperation0\<rparr>"

definition init_state :: state where
  "init_state =
     \<lparr>heap = [], metadataMap = [], proxyMetadataMap = [], proxySet = [], replicants = [],
      optsHeap = [],
      declaredReplicants = \<lparr>own_namespaces = [], registry_proto = None\<rparr>,
      emitted = [], handlers = [], events = []\<rparr>"

section \<open>Example runs\<close>

text \<open>
  States reached by running the model: Replicant \<open>a\<close> of bundle \<open>bundle\<close> is constructed
  through the Manager, joins its room and is declared by a server that holds no value;
  the objects \<open>{x: 1}\<close> (address 0) and \<open>{child: <object 0>}\<close> (address 1) arrive, the
  first is assigned to \<open>a\<close> at revision 1, and a second Replicant \<open>b\<close> is constructed and
  declared.
\<close>

definition frames :: nat where
  "frames = 100"

definition ack_empty :: ackData where
  "ack_empty =
     \<lparr>a_value = Undefined, a_revision = Some 0, a_schema = Undefined, a_schemaSum = [],
      a_rejectReason = Undefined\<rparr>"

definition st_constructed :: state where
  "st_constructed = snd (Manager_newReplicant 0 ''bundle'' ''a'' init_state)"

definition st_declared :: state where
  "st_declared = snd (declareCallback frames ext0 0 ack_empty (joinRoomCallback 0 st_constructed))"

definition st_objects :: state where
  "st_objects =
     st_declared\<lparr>heap := [Plain False [(''x'', Num 1)], Plain False [(''child'', Ref 0)]]\<rparr>"

definition st_owned :: state where
  "st_owned =
     snd (Replicant_handleAssignment frames ext0 0
            \<lparr>ad_name = ''a'', ad_namespace = ''bundle'', ad_newValue = Ref 0, ad_revision = Some 1\<rparr>
            st_objects)"

definition st_two :: state where
  "st_two =
     snd (declareCallback frames ext0 1 ack_empty
            (joinRoomCallback 1 (snd (Manager_newReplicant 0 ''bundle'' ''b'' st_owned))))"

text \<open>
  A run with a schema: the server declares \<open>a\<close> with the schema
  \<open>{count: number, label: string}\<close> (address 0); the object
  \<open>{count: "x", label: 5}\<close> (address 1) violates both members and the object
  \<open>{count: 1, label: "l"}\<close> (address 2) is valid.  The valid object is assigned at
  revision 1; then an operations batch at revision 2 with an unknown method arrives.
\<close>

definition st_schema :: state where
  "st_schema =
     snd (declareCallback frames ext0 0
            (ack_empty\<lparr>a_schema := Ref 0, a_schemaSum := ''sum''\<rparr>)
            (joinRoomCallback 0
               (st_constructed\<lparr>heap :=
                  [Plain False [(''count'', Str ''number''), (''label'', Str ''string'')],
                   Plain False [(''count'', Str ''x''), (''label'', Num 5)],
                   Plain False [(''count'', Num 1), (''label'', Str ''l'')]]\<rparr>)))"

definition st_schema_owned :: state where
  "st_schema_owned =
     snd (Replicant_handleAssignment frames ext0 0
            \<lparr>ad_name = ''a'', ad_namespace = ''bundle'', ad_newValue = Ref 2, ad_revision = Some 1\<rparr>
            st_schema)"

definition unknown_batch :: operationsData where
  "unknown_batch =
     \<lparr>od_name = ''a'', od_namespace = ''bundle'', od_revision = 2,
      od_operations =
        [\<lparr>op_path = ''/'', op_method = ''frob'', op_args = MutatorArgs [], op_result = Undefined\<rparr>]\<rparr>"

definition st_stuck :: state where
  "st_stuck = snd (Replicant_handleOperations frames ext0 0 unknown_batch st_schema_owned)"

text \<open>Operation batches for \<open>a\<close>: one member added at the root, stamped with a revision.\<close>

definition add_batch :: "int \<Rightarrow> operationsData" where
  "add_batch k =
     \<lparr>od_name = ''a'', od_namespace = ''bundle'', od_revision = k,
      od_operations =
        [\<lparr>op_path = ''/'', op_method = ''add'', op_args = PropArgs ''y'' (Num 7),
          op_result = Undefined\<rparr>]\<rparr>"

text \<open>
  Replicant \<open>a\<close> constructed in the namespace \<open>__proto__\<close>; and \<open>a\<close> of bundle \<open>bundle\<close>
  assigned the value 5 through its handle before the declaration is acknowledged, at the
  moment the room is joined.
\<close>

definition st_proto :: state where
  "st_proto = snd (Manager_newReplicant 0 ''__proto__'' ''a'' init_state)"

definition st_queued :: state where
  "st_queued = joinRoomCallback 0 (snd (replicantHandler_set_value ext0 0 (Num 5) st_constructed))"

text \<open>\<open>a\<close> of \<open>st_two\<close> at revision \<open>2 ^ 53\<close>, where \<open>revision + 1\<close> rounds back to the revision.\<close>

definition st_limit :: state where
  "st_limit = upd_rep 0 (\<lambda>r. r\<lparr>revision := 9007199254740992\<rparr>) st_two"

section \<open>Properties\<close>

subsection \<open>Path codec\<close>

lemma str_split_not_Nil: "str_split c s \<noteq> []"
  by (induction s) (auto split: list.splits)

lemma str_join_split: "str_join [c] (str_split c s) = s"
proof (induction s)
  case Nil
  show ?case by simp
next
  case (Cons x s)
  obtain y ys where ys: "str_split c s = y # ys"
    using str_split_not_Nil [of c s] by (cases "str_split c s") auto
  with Cons show ?case by (cases ys) auto
qed

text \<open>
  Where the round trip does hold: a path that starts with one slash, has no second slash
  right after it, and whose segments contain no token to un-escape.
\<close>

lemma path_round_trip_unescaped:
  assumes "p = CHR ''/'' # s"
      and "take 1 s \<noteq> ''/''"
      and "map detokenize (str_split CHR ''/'' s) = str_split CHR ''/'' s"
  shows "pathArrToPathStr (pathStrToPathArr p) = p"
proof (cases "str_split CHR ''/'' s = [[]]")
  case True
  then have "str_join ''/'' (str_split CHR ''/'' s) = []" by simp
  then have "s = []" using str_join_split [of "CHR ''/''" s] by simp
  with assms show ?thesis
    by (simp add: pathStrToPathArr_def pathArrToPathStr_def)
next
  case False
  have "str_join ''/'' (str_split CHR ''/'' s) = s"
    using str_join_split [of "CHR ''/''" s] by simp
  with assms False show ?thesis
    by (simp add: pathStrToPathArr_def pathArrToPathStr_def)
qed

text \<open>
  C3.  The claim: converting a path string to segments and back yields the path, and a
  segment containing a literal slash survives the round trip.  The code un-escapes \<open>~1\<close>
  in \<open>pathStrToPathArr\<close> but \<open>pathArrToPathStr\<close> joins the segments without
  escaping them again: the path \<open>/a~1b\<close> (the one \<open>proxyRecursive\<close> records for
  the key \<open>a/b\<close>) comes back as \<open>/a/b\<close>, and the one-segment list \<open>[a/b]\<close> comes
  back as two segments.
\<close>

theorem path_round_trip_loses_escape:
  "pathStrToPathArr ''/a~1b'' = [''a/b'']
   \<and> pathArrToPathStr (pathStrToPathArr ''/a~1b'') = ''/a/b''
   \<and> pathStrToPathArr (pathArrToPathStr [''a/b'']) = [''a'', ''b'']
   \<and> joinPathParts ''/'' (tokenize ''a/b'') = ''/a~1b''"
  by (simp add: pathStrToPathArr_def pathArrToPathStr_def joinPathParts_def)

subsection \<open>readReplicant\<close>

text \<open>
  C9.  A call to \<open>readReplicant\<close> whose name or namespace is missing (undefined) or not
  a string fails with an error and leaves the state, and so the log of emitted messages,
  as it was; the empty string fails in the same way.  When both are non-empty strings,
  exactly one \<open>replicant:read\<close> message is appended, carrying the name, the namespace and
  the acknowledgement callback.
\<close>

theorem readReplicant_guards_then_emits:
  "(typeof nm \<noteq> ''string'' \<or> typeof ns \<noteq> ''string'' \<or> nm = Str [] \<or> ns = Str []
      \<longrightarrow> (\<exists>msg. readReplicant sock nm ns cb st = (Inl (Error msg), st)))
   \<and> (nm = Str n \<and> ns = Str s \<and> n \<noteq> [] \<and> s \<noteq> []
      \<longrightarrow> readReplicant sock nm ns cb st =
            (Inr (), st\<lparr>emitted := emitted st @
                        [\<lparr>m_socket = sock, m_event = ''replicant:read'',
                          m_payload = ReadPayload (Str n) (Str s), m_ack = Some cb\<rparr>]\<rparr>))"
  by (cases nm; cases ns) (auto simp add: readReplicant_def socket_emit_def)

theorem readReplicant_guards_then_emits_witness:
  "(\<exists>msg. readReplicant 0 Undefined (Str ''bundle'') (FullUpdateCallback 0) st_declared
            = (Inl (Error msg), st_declared))
   \<and> (\<exists>msg. readReplicant 0 (Str ''a'') (Num 7) (FullUpdateCallback 0) st_declared
            = (Inl (Error msg), st_declared))
   \<and> readReplicant 0 (Str ''a'') (Str ''bundle'') (FullUpdateCallback 0) st_declared =
       (Inr (), st_declared\<lparr>emitted := emitted st_declared @
                  [\<lparr>m_socket = 0, m_event = ''replicant:read'',
                    m_payload = ReadPayload (Str ''a'') (Str ''bundle''),
                    m_ack = Some (FullUpdateCallback 0)\<rparr>]\<rparr>)"
  using readReplicant_guards_then_emits
          [where nm = Undefined and ns = "Str ''bundle''" and sock = 0
             and cb = "FullUpdateCallback 0" and st = st_declared]
        readReplicant_guards_then_emits
          [where nm = "Str ''a''" and ns = "Num 7" and sock = 0
             and cb = "FullUpdateCallback 0" and st = st_declared]
        readReplicant_guards_then_emits
          [where nm = "Str ''a''" and ns = "Str ''bundle''" and n = "''a''" and s = "''bundle''"
             and sock = 0 and cb = "FullUpdateCallback 0" and st = st_declared]
  by simp

subsection \<open>Facts about the example runs\<close>

lemma st_constructed_status: "status (replicants st_constructed ! 0) = Declaring"
  by code_simp

lemma st_declared_status: "status (replicants st_declared ! 0) = Declared"
  by code_simp

lemma st_declared_val: "val (replicants st_declared ! 0) = Undefined"
  by code_simp

subsection \<open>Declare\<close>

text \<open>
  C7.  Calling \<open>_declare\<close> on a Replicant whose status is \<open>declaring\<close> or \<open>declared\<close>
  returns the state it was given: no message is emitted and no field changes.
\<close>

theorem declare_idempotent:
  "status (replicants st ! this) = Declaring \<or> status (replicants st ! this) = Declared
     \<Longrightarrow> Replicant_declare this st = st"
  by (auto simp add: Replicant_declare_def)

theorem declare_idempotent_witness:
  "Replicant_declare 0 st_constructed = st_constructed
   \<and> emitted (Replicant_declare 0 st_declared) = emitted st_declared
   \<and> Replicant_declare 0 st_declared = st_declared"
  using declare_idempotent [where st = st_constructed and this = 0]
        declare_idempotent [where st = st_declared and this = 0]
        st_constructed_status st_declared_status
  by simp

subsection \<open>applyOperation on a falsy value\<close>

text \<open>
  C10.  When the Replicant's value is undefined or otherwise falsy, \<open>applyOperation\<close>
  raises \<open>applyOperation called with Replicant with undefined value\<close> and returns the
  state unchanged: the suppression flag is not set, no mutation is applied, and value and
  revision are as before.
\<close>

theorem applyOperation_falsy_value:
  "\<not> truthy (val (replicants st ! replicant))
     \<Longrightarrow> applyOperation n E replicant operation st =
           (Inl (Error ''applyOperation called with Replicant with undefined value''), st)"
  by (simp add: applyOperation_def)

theorem applyOperation_falsy_value_witness:
  "applyOperation frames ext0 0
     \<lparr>op_path = ''/'', op_method = ''add'', op_args = PropArgs ''x'' (Num 1), op_result = Undefined\<rparr>
     st_declared =
   (Inl (Error ''applyOperation called with Replicant with undefined value''), st_declared)"
  using applyOperation_falsy_value
          [where st = st_declared and replicant = 0 and n = frames and E = ext0 and operation =
             "\<lparr>op_path = ''/'', op_method = ''add'', op_args = PropArgs ''x'' (Num 1), op_result = Undefined\<rparr>"]
        st_declared_val
  by simp

subsection \<open>The registry of declared Replicants\<close>

lemma Replicant_declare_registry:
  "declaredReplicants (Replicant_declare this st) = declaredReplicants st"
  by (simp add: Replicant_declare_def upd_rep_def socket_emit_def Let_def)

lemma names_write_plain:
  "names_proto N = None \<Longrightarrow> k \<noteq> ''__proto__''
     \<Longrightarrow> names_write k v N = Inr (N\<lparr>own_names := AList.update k v (own_names N)\<rparr>)"
  by (simp add: names_write_def)

lemma registry_write_plain:
  "names_plain R \<Longrightarrow> k \<noteq> ''__proto__''
     \<Longrightarrow> registry_write k N R = Inr (R\<lparr>own_namespaces := AList.update k N (own_namespaces R)\<rparr>)"
  by (simp add: registry_write_def names_plain_def split: option.splits)

lemma set_update_subset: "set (AList.update k v al) \<subseteq> insert (k, v) (set al)"
  by (induct al) auto

lemma names_plain_update:
  "names_plain R \<Longrightarrow> names_proto N = None
     \<Longrightarrow> names_plain (R\<lparr>own_namespaces := AList.update k N (own_namespaces R)\<rparr>)"
  using set_update_subset [of k N "own_namespaces R"]
  by (auto simp add: names_plain_def list_all_iff)

lemma names_plain_own:
  "names_plain R \<Longrightarrow> map_of (own_namespaces R) ns = Some N \<Longrightarrow> names_proto N = None"
  by (auto simp add: names_plain_def list_all_iff dest!: map_of_SomeD)

lemma registry_register_plain:
  "names_plain R \<Longrightarrow> map_of (own_namespaces R) ns = Some N \<Longrightarrow> nm \<noteq> ''__proto__''
     \<Longrightarrow> registry_register ns nm v R =
           Inr (R\<lparr>own_namespaces :=
                    AList.update ns (N\<lparr>own_names := AList.update nm v (own_names N)\<rparr>)
                      (own_namespaces R)\<rparr>)"
  by (simp add: registry_register_def names_write_plain names_plain_own)

lemma Replicant_construct_registered:
  assumes "registry_register ns nm this (declaredReplicants st) = Inr R"
  shows "fst (Replicant_construct this nm ns o_ref sock st) = Inr this"
    and "declaredReplicants (snd (Replicant_construct this nm ns o_ref sock st)) = R"
    and "length (replicants (snd (Replicant_construct this nm ns o_ref sock st)))
           = length (replicants st)"
  using assms
  by (simp_all add: Replicant_construct_def Let_def Replicant_registerSocketOperations_def
        Replicant_declare_registry upd_rep_def Replicant_declare_def socket_emit_def)


lemma constructor_registered:
  "registered (declaredReplicants st) ns nm = Some existing
     \<Longrightarrow> Replicant_constructor nm ns o_ref sock st =
           (Inr existing, st\<lparr>replicants := replicants st @ [Replicant_new nm ns o_ref sock]\<rparr>)"
  by (auto simp add: Replicant_constructor_def Let_def registered_def split: option.splits)

lemma constructor_plain:
  assumes plain: "names_plain (declaredReplicants st)"
    and ns: "ns \<noteq> ''__proto__''" and nm: "nm \<noteq> ''__proto__''"
  shows "\<exists>r. fst (Replicant_constructor nm ns o_ref sock st) = Inr r
           \<and> registered (declaredReplicants (snd (Replicant_constructor nm ns o_ref sock st))) ns nm
               = Some r
           \<and> names_plain (declaredReplicants (snd (Replicant_constructor nm ns o_ref sock st)))"
proof -
  define this where "this = length (replicants st)"
  define st1 where "st1 = st\<lparr>replicants := replicants st @ [Replicant_new nm ns o_ref sock]\<rparr>"
  have plain1: "names_plain (declaredReplicants st1)"
    using plain by (simp add: st1_def)
  have build:
    "\<exists>r. fst (Replicant_construct this nm ns o_ref sock st2) = Inr r
        \<and> registered (declaredReplicants (snd (Replicant_construct this nm ns o_ref sock st2))) ns nm
            = Some r
        \<and> names_plain (declaredReplicants (snd (Replicant_construct this nm ns o_ref sock st2)))"
    if p: "names_plain (declaredReplicants st2)"
      and own: "map_of (own_namespaces (declaredReplicants st2)) ns = Some N" for st2 N
  proof -
    let ?N = "N\<lparr>own_names := AList.update nm this (own_names N)\<rparr>"
    let ?R = "(declaredReplicants st2)\<lparr>own_namespaces :=
                AList.update ns ?N (own_namespaces (declaredReplicants st2))\<rparr>"
    have reg: "registry_register ns nm this (declaredReplicants st2) = Inr ?R"
      using registry_register_plain [OF p own nm] .
    have "names_proto ?N = None"
      using names_plain_own [OF p own] by simp
    then have "names_plain ?R"
      using names_plain_update [OF p] by simp
    moreover have "registered ?R ns nm = Some this"
      by (simp add: registered_def update_conv')
    ultimately show ?thesis
      using Replicant_construct_registered(1,2) [OF reg] by simp
  qed
  show ?thesis
  proof (cases "map_of (own_namespaces (declaredReplicants st)) ns")
    case None
    let ?E = "\<lparr>own_names = [], names_proto = None\<rparr>"
    let ?R = "(declaredReplicants st1)\<lparr>own_namespaces :=
                AList.update ns ?E (own_namespaces (declaredReplicants st1))\<rparr>"
    have w: "registry_write ns ?E (declaredReplicants st1) = Inr ?R"
      using registry_write_plain [OF plain1 ns] .
    have c: "Replicant_constructor nm ns o_ref sock st
          = Replicant_construct this nm ns o_ref sock (st1\<lparr>declaredReplicants := ?R\<rparr>)"
      using None w by (simp add: Replicant_constructor_def Let_def this_def st1_def)
    have "names_plain (declaredReplicants (st1\<lparr>declaredReplicants := ?R\<rparr>))"
      using names_plain_update [OF plain1, of ?E ns] by simp
    moreover have "map_of (own_namespaces (declaredReplicants (st1\<lparr>declaredReplicants := ?R\<rparr>))) ns
        = Some ?E"
      by (simp add: update_conv')
    ultimately show ?thesis
      unfolding c by (rule build)
  next
    case (Some N)
    show ?thesis
    proof (cases "map_of (own_names N) nm")
      case None
      have c: "Replicant_constructor nm ns o_ref sock st
            = Replicant_construct this nm ns o_ref sock st1"
        using Some None by (simp add: Replicant_constructor_def Let_def this_def st1_def)
      have "map_of (own_namespaces (declaredReplicants st1)) ns = Some N"
        using Some by (simp add: st1_def)
      with plain1 show ?thesis
        unfolding c by (rule build)
    next
      case existing: (Some existing)
      have "registered (declaredReplicants st) ns nm = Some existing"
        using Some existing by (simp add: registered_def)
      then show ?thesis
        using constructor_registered [of st ns nm existing o_ref sock] plain by simp
    qed
  qed
qed

lemma constructor_proto_namespace:
  assumes plain: "names_plain (declaredReplicants st)"
    and fresh: "no_own_proto (declaredReplicants st)"
    and nm: "nm \<noteq> ''__proto__''"
  shows "fst (Replicant_constructor nm ''__proto__'' o_ref sock st) = Inr (length (replicants st))"
    and "declaredReplicants (snd (Replicant_constructor nm ''__proto__'' o_ref sock st))
           = (declaredReplicants st)
               \<lparr>registry_proto :=
                  Some \<lparr>own_names = [(nm, length (replicants st))], names_proto = None\<rparr>\<rparr>"
    and "length (replicants (snd (Replicant_constructor nm ''__proto__'' o_ref sock st)))
           = length (replicants st) + 1"
proof -
  define this where "this = length (replicants st)"
  define st1 where "st1 = st\<lparr>replicants := replicants st @ [Replicant_new nm ''__proto__'' o_ref sock]\<rparr>"
  let ?E = "\<lparr>own_names = [], names_proto = None\<rparr>"
  let ?R = "(declaredReplicants st)\<lparr>registry_proto := Some ?E\<rparr>"
  let ?R' = "(declaredReplicants st)\<lparr>registry_proto :=
                Some \<lparr>own_names = [(nm, this)], names_proto = None\<rparr>\<rparr>"
  have own: "map_of (own_namespaces (declaredReplicants st)) ''__proto__'' = None"
    using fresh by (simp add: no_own_proto_def)
  have w: "registry_write ''__proto__'' ?E (declaredReplicants st) = Inr ?R"
    using plain fresh
    by (auto simp add: registry_write_def names_plain_def no_own_proto_def split: option.splits)
  have c: "Replicant_constructor nm ''__proto__'' o_ref sock st
        = Replicant_construct this nm ''__proto__'' o_ref sock (st1\<lparr>declaredReplicants := ?R\<rparr>)"
    using own w by (simp add: Replicant_constructor_def Let_def this_def st1_def)
  have reg: "registry_register ''__proto__'' nm this
               (declaredReplicants (st1\<lparr>declaredReplicants := ?R\<rparr>)) = Inr ?R'"
    using own nm by (simp add: registry_register_def names_write_def)
  show "fst (Replicant_constructor nm ''__proto__'' o_ref sock st) = Inr (length (replicants st))"
    unfolding c using Replicant_construct_registered(1) [OF reg] by (simp add: this_def)
  show "declaredReplicants (snd (Replicant_constructor nm ''__proto__'' o_ref sock st))
           = (declaredReplicants st)
               \<lparr>registry_proto :=
                  Some \<lparr>own_names = [(nm, length (replicants st))], names_proto = None\<rparr>\<rparr>"
    unfolding c using Replicant_construct_registered(2) [OF reg] by (simp add: this_def)
  show "length (replicants (snd (Replicant_constructor nm ''__proto__'' o_ref sock st)))
           = length (replicants st) + 1"
    unfolding c using Replicant_construct_registered(3) [OF reg] by (simp add: st1_def)
qed

text \<open>
  C2.  The claim: for every pair a construction request for a registered pair returns the
  registered instance and skips the rest of construction, so one instance exists per
  pair.  A pair that the two \<open>hasOwnProperty\<close> tests find is indeed answered with the
  registered handle, the state being the given one plus the discarded new object; and for
  a namespace and a name other than \<open>__proto__\<close>, in a registry where no Replicant was
  named \<open>__proto__\<close>, every construction leaves its result registered, so a second request
  returns the same handle.  But the registry is a plain object: in the namespace
  \<open>__proto__\<close> the assignment \<open>declaredReplicants[namespace] = {}\<close> replaces the prototype
  of the registry and creates no own property, so the pair is never found: every request
  runs the constructor in full and returns a new instance, the second one a different
  handle from the first.
\<close>

theorem constructor_misses_proto_namespace:
  "(registered (declaredReplicants st) ns nm = Some existing
      \<longrightarrow> Replicant_constructor nm ns o_ref sock st =
            (Inr existing, st\<lparr>replicants := replicants st @ [Replicant_new nm ns o_ref sock]\<rparr>))
   \<and> (names_plain (declaredReplicants st) \<and> ns \<noteq> ''__proto__'' \<and> nm \<noteq> ''__proto__''
      \<longrightarrow> (\<exists>r. fst (Replicant_constructor nm ns o_ref sock st) = Inr r
              \<and> registered (declaredReplicants (snd (Replicant_constructor nm ns o_ref sock st)))
                  ns nm = Some r
              \<and> names_plain (declaredReplicants (snd (Replicant_constructor nm ns o_ref sock st)))
              \<and> fst (Replicant_constructor nm ns o_ref' sock'
                       (snd (Replicant_constructor nm ns o_ref sock st))) = Inr r))
   \<and> (names_plain (declaredReplicants st) \<and> no_own_proto (declaredReplicants st)
       \<and> nm \<noteq> ''__proto__''
      \<longrightarrow> fst (Replicant_constructor nm ''__proto__'' o_ref sock st)
            = Inr (length (replicants st))
          \<and> registered
              (declaredReplicants (snd (Replicant_constructor nm ''__proto__'' o_ref sock st)))
              ''__proto__'' nm = None
          \<and> fst (Replicant_constructor nm ''__proto__'' o_ref' sock'
                   (snd (Replicant_constructor nm ''__proto__'' o_ref sock st)))
            = Inr (length (replicants st) + 1))"
proof (intro conjI impI)
  assume "registered (declaredReplicants st) ns nm = Some existing"
  then show "Replicant_constructor nm ns o_ref sock st =
            (Inr existing, st\<lparr>replicants := replicants st @ [Replicant_new nm ns o_ref sock]\<rparr>)"
    by (rule constructor_registered)
next
  assume "names_plain (declaredReplicants st) \<and> ns \<noteq> ''__proto__'' \<and> nm \<noteq> ''__proto__''"
  then obtain r where r: "fst (Replicant_constructor nm ns o_ref sock st) = Inr r"
      "registered (declaredReplicants (snd (Replicant_constructor nm ns o_ref sock st))) ns nm
         = Some r"
      "names_plain (declaredReplicants (snd (Replicant_constructor nm ns o_ref sock st)))"
    using constructor_plain [of st ns nm o_ref sock] by blast
  have "fst (Replicant_constructor nm ns o_ref' sock'
               (snd (Replicant_constructor nm ns o_ref sock st))) = Inr r"
    using constructor_registered [OF r(2)] by simp
  with r show "\<exists>r. fst (Replicant_constructor nm ns o_ref sock st) = Inr r
              \<and> registered (declaredReplicants (snd (Replicant_constructor nm ns o_ref sock st)))
                  ns nm = Some r
              \<and> names_plain (declaredReplicants (snd (Replicant_constructor nm ns o_ref sock st)))
              \<and> fst (Replicant_constructor nm ns o_ref' sock'
                       (snd (Replicant_constructor nm ns o_ref sock st))) = Inr r"
    by blast
next
  assume a: "names_plain (declaredReplicants st) \<and> no_own_proto (declaredReplicants st)
       \<and> nm \<noteq> ''__proto__''"
  let ?st' = "snd (Replicant_constructor nm ''__proto__'' o_ref sock st)"
  note first = constructor_proto_namespace [of st nm o_ref sock]
  show "fst (Replicant_constructor nm ''__proto__'' o_ref sock st) = Inr (length (replicants st))"
    using first(1) a by simp
  have reg: "declaredReplicants ?st'
           = (declaredReplicants st)
               \<lparr>registry_proto :=
                  Some \<lparr>own_names = [(nm, length (replicants st))], names_proto = None\<rparr>\<rparr>"
    using first(2) a by simp
  show "registered (declaredReplicants ?st') ''__proto__'' nm = None"
    using a unfolding reg by (simp add: registered_def no_own_proto_def)
  have "names_plain (declaredReplicants ?st')" "no_own_proto (declaredReplicants ?st')"
    using a unfolding reg by (auto simp add: names_plain_def no_own_proto_def)
  then have "fst (Replicant_constructor nm ''__proto__'' o_ref' sock' ?st')
      = Inr (length (replicants ?st'))"
    using constructor_proto_namespace(1) [of ?st' nm o_ref' sock'] a by simp
  then show "fst (Replicant_constructor nm ''__proto__'' o_ref' sock' ?st')
      = Inr (length (replicants st) + 1)"
    using first(3) a by simp
qed

lemma init_state_registry:
  "names_plain (declaredReplicants init_state)" "no_own_proto (declaredReplicants init_state)"
  by code_simp+

lemma st_constructed_registered:
  "registered (declaredReplicants st_constructed) ''bundle'' ''a'' = Some 0"
  by code_simp

lemma st_proto_registry:
  "names_plain (declaredReplicants st_proto)" "no_own_proto (declaredReplicants st_proto)"
  "length (replicants st_proto) = 1"
  by code_simp+

theorem constructor_misses_proto_namespace_witness:
  "fst (Manager_newReplicant 0 ''bundle'' ''a'' init_state) = Inr 0
   \<and> fst (Manager_newReplicant 0 ''bundle'' ''a'' st_constructed) = Inr 0
   \<and> fst (Manager_newReplicant 0 ''__proto__'' ''a'' init_state) = Inr 0
   \<and> fst (Manager_newReplicant 0 ''__proto__'' ''a'' st_proto) = Inr 1"
proof -
  let ?fresh = "\<lparr>persistent = None, persistenceInterval = None\<rparr>"
  have "\<exists>r. fst (Manager_newReplicant 0 ''bundle'' ''a'' init_state) = Inr r
          \<and> fst (Replicant_constructor ''a'' ''bundle'' 1 0
                   (snd (Manager_newReplicant 0 ''bundle'' ''a'' init_state))) = Inr r"
    using constructor_misses_proto_namespace
            [where st = "init_state\<lparr>optsHeap := optsHeap init_state @ [?fresh]\<rparr>"
               and ns = "''bundle''" and nm = "''a''" and o_ref = "length (optsHeap init_state)"
               and sock = 0 and o_ref' = 1 and sock' = 0, THEN conjunct2, THEN conjunct1]
          init_state_registry
    by (auto simp add: Manager_newReplicant_def)
  moreover have "fst (Manager_newReplicant 0 ''bundle'' ''a'' init_state) = Inr 0"
    by code_simp
  ultimately have 1: "fst (Manager_newReplicant 0 ''bundle'' ''a'' init_state) = Inr 0
      \<and> fst (Replicant_constructor ''a'' ''bundle'' 1 0 st_constructed) = Inr 0"
    by (auto simp add: st_constructed_def)
  have 2: "fst (Manager_newReplicant 0 ''bundle'' ''a'' st_constructed) = Inr 0"
    using constructor_misses_proto_namespace
            [where st = "st_constructed\<lparr>optsHeap := optsHeap st_constructed @ [?fresh]\<rparr>"
               and ns = "''bundle''" and nm = "''a''" and existing = 0
               and o_ref = "length (optsHeap st_constructed)" and sock = 0, THEN conjunct1]
          st_constructed_registered
    by (simp add: Manager_newReplicant_def)
  have 3: "fst (Manager_newReplicant 0 ''__proto__'' ''a'' init_state) = Inr 0"
    using constructor_misses_proto_namespace
            [where st = "init_state\<lparr>optsHeap := optsHeap init_state @ [?fresh]\<rparr>"
               and nm = "''a''" and o_ref = "length (optsHeap init_state)" and sock = 0,
             THEN conjunct2, THEN conjunct2]
          init_state_registry
    by (simp add: Manager_newReplicant_def init_state_def)
  have 4: "fst (Manager_newReplicant 0 ''__proto__'' ''a'' st_proto) = Inr 1"
    using constructor_misses_proto_namespace
            [where st = "st_proto\<lparr>optsHeap := optsHeap st_proto @ [?fresh]\<rparr>"
               and nm = "''a''" and o_ref = "length (optsHeap st_proto)" and sock = 0,
             THEN conjunct2, THEN conjunct2]
          st_proto_registry
    by (simp add: Manager_newReplicant_def)
  from 1 2 3 4 show ?thesis by simp
qed

text \<open>
  The two requests for \<open>a\<close> in the namespace \<open>__proto__\<close> each run \<open>_declare\<close> and subscribe
  to the socket.  A Replicant named \<open>__proto__\<close> becomes the prototype of the object of
  its namespace: the registration of any later Replicant of that namespace, itself
  included, reaches the \<open>set\<close> trap of its handle and not the registry.
\<close>

lemma constructor_proto_runs_in_full:
  "fst (Manager_newReplicant 0 ''__proto__'' ''a'' init_state) = Inr 0
   \<and> fst (Manager_newReplicant 0 ''__proto__'' ''a''
            (snd (Manager_newReplicant 0 ''__proto__'' ''a'' init_state))) = Inr 1
   \<and> length (emitted (snd (Manager_newReplicant 0 ''__proto__'' ''a'' init_state))) = 1
   \<and> length (emitted (snd (Manager_newReplicant 0 ''__proto__'' ''a''
            (snd (Manager_newReplicant 0 ''__proto__'' ''a'' init_state))))) = 2
   \<and> length (handlers (snd (Manager_newReplicant 0 ''__proto__'' ''a''
            (snd (Manager_newReplicant 0 ''__proto__'' ''a'' init_state))))) = 8
   \<and> fst (Manager_newReplicant 0 ''bundle'' ''__proto__''
            (snd (Manager_newReplicant 0 ''bundle'' ''__proto__'' init_state))) = Inl (Trapped 0 ''__proto__'')
   \<and> fst (Manager_newReplicant 0 ''bundle'' ''b''
            (snd (Manager_newReplicant 0 ''bundle'' ''__proto__'' init_state))) = Inl (Trapped 0 ''b'')"
  by code_simp

subsection \<open>Validation\<close>

text \<open>
  C8.  The claim: a value that fails the schema makes \<open>validate\<close> record the validator's
  error list and raise an error whose message enumerates every violated field; without a
  validator it succeeds.  The error list is recorded and the no-validator case holds, but
  the \<open>throw\<close> stands inside the \<open>forEach\<close> callback: whatever the rest of the list, the
  message is the header followed by the line of the first error only.
\<close>

theorem validate_reports_first_error_only:
  "(validator (replicants st ! this) = None
      \<longrightarrow> Replicant_validate E this v throwOnInvalid st = (Inr True, st))
   \<and> (validator (replicants st ! this) = Some compiled
       \<and> lib_validator E compiled (heap st) v = (False, error # rest)
      \<longrightarrow> Replicant_validate E this v True st =
            (Inl (Error (validate_header (replicants st ! this)
                          @ validate_errorLine E (heap st) error)),
             upd_rep this (\<lambda>r. r\<lparr>validationErrors := error # rest\<rparr>) st))"
  by (simp add: Replicant_validate_def Let_def)

lemma st_schema_validator: "validator (replicants st_schema ! 0) = Some (Ref 0)"
  by code_simp

lemma st_schema_heap: "heap st_schema =
  [Plain False [(''count'', Str ''number''), (''label'', Str ''string'')],
   Plain False [(''count'', Str ''x''), (''label'', Num 5)],
   Plain False [(''count'', Num 1), (''label'', Str ''l'')]]"
  by code_simp

lemma st_schema_names: "name (replicants st_schema ! 0) = ''a'' \<and> namespace (replicants st_schema ! 0) = ''bundle''"
  by code_simp

lemma st_schema_errors:
  "lib_validator ext0 (Ref 0) (heap st_schema) (Ref 1) =
     (False,
      [\<lparr>ve_field = ''data.count'', ve_message = ''is the wrong type'', ve_value = Str ''x'',
        ve_type = ''number''\<rparr>,
       \<lparr>ve_field = ''data.label'', ve_message = ''is the wrong type'', ve_value = Num 5,
        ve_type = ''string''\<rparr>])"
  unfolding st_schema_heap by code_simp

theorem validate_reports_first_error_only_witness:
  "fst (Replicant_validate ext0 0 (Ref 1) True st_schema) =
     Inl (Error (''Invalid value rejected for replicant '' @ dquote @ ''a'' @ dquote
                   @ '' in namespace '' @ dquote @ ''bundle'' @ dquote @ '':'' @ newline
                   @ tab @ ''Field '' @ dquote @ ''count'' @ dquote @ '' is the wrong type. Value ''
                   @ dquote @ ''x'' @ dquote @ '' (type: string) was provided, expected type ''
                   @ dquote @ ''number'' @ dquote @ newline @ '' ''))
   \<and> map ve_field (validationErrors (replicants (snd (Replicant_validate ext0 0 (Ref 1) True st_schema)) ! 0))
       = [''data.count'', ''data.label'']"
proof -
  have a: "fst (Replicant_validate ext0 0 (Ref 1) True st_schema) =
        Inl (Error (validate_header (replicants st_schema ! 0)
                          @ validate_errorLine ext0 (heap st_schema)
       \<lparr>ve_field = ''data.count'', ve_message = ''is the wrong type'', ve_value = Str ''x'',
        ve_type = ''number''\<rparr>))"
   and b: "snd (Replicant_validate ext0 0 (Ref 1) True st_schema) =
        upd_rep 0 (\<lambda>r. r\<lparr>validationErrors := 
      [\<lparr>ve_field = ''data.count'', ve_message = ''is the wrong type'', ve_value = Str ''x'',
        ve_type = ''number''\<rparr>,
       \<lparr>ve_field = ''data.label'', ve_message = ''is the wrong type'', ve_value = Num 5,
        ve_type = ''string''\<rparr>]\<rparr>) st_schema"
    using validate_reports_first_error_only
            [where st = st_schema and this = 0 and E = ext0 and compiled = "Ref 0" and v = "Ref 1"
               and error = "\<lparr>ve_field = ''data.count'', ve_message = ''is the wrong type'',
                              ve_value = Str ''x'', ve_type = ''number''\<rparr>"
               and rest = "[\<lparr>ve_field = ''data.label'', ve_message = ''is the wrong type'',
                              ve_value = Num 5, ve_type = ''string''\<rparr>]"]
          st_schema_validator st_schema_errors
    by simp_all
  have c: "length (replicants st_schema) = 1" by code_simp
  show ?thesis
    unfolding a b
    by (simp add: validate_header_def validate_errorLine_def strip_data_def st_schema_names
          ext0_def upd_rep_def c)
qed

subsection \<open>The frame of wrapping\<close>

lemma frame_upd_rep:
  assumes "\<And>r. rep_frame (f r) = rep_frame r"
  shows "frame (upd_rep i f st) = frame st"
proof (cases "i < length (replicants st)")
  case True
  then have "(map rep_frame (replicants st))[i := rep_frame (replicants st ! i)]
               = map rep_frame (replicants st)"
    by (metis length_map list_update_id nth_map)
  then show ?thesis
    by (simp add: frame_def upd_rep_def map_update assms)
next
  case False
  then show ?thesis
    by (simp add: frame_def upd_rep_def list_update_beyond)
qed

lemma frame_heap [simp]: "frame (st\<lparr>heap := h\<rparr>) = frame st"
  by (simp add: frame_def)

lemma frame_set_md_path [simp]: "frame (set_md_path raw path st) = frame st"
  by (simp add: frame_def set_md_path_def)

lemma frame_validationErrors [simp]:
  "frame (upd_rep i (\<lambda>r. r\<lparr>validationErrors := es\<rparr>) st) = frame st"
  by (rule frame_upd_rep) (simp add: rep_frame_def)

lemma frame_operationQueue [simp]:
  "frame (upd_rep i (\<lambda>r. r\<lparr>operationQueue := q\<rparr>) st) = frame st"
  by (rule frame_upd_rep) (simp add: rep_frame_def)

lemma frame_set_ignoreProxy [simp]: "frame (set_ignoreProxy i b st) = frame st"
  unfolding set_ignoreProxy_def by (rule frame_upd_rep) (simp add: rep_frame_def)

lemma frame_Replicant_validate:
  "Replicant_validate E this v t st = (res, st') \<Longrightarrow> frame st' = frame st"
  by (auto simp add: Replicant_validate_def Let_def split: option.splits prod.splits sum.splits if_splits)

lemma frame_trap_validate:
  "trap_validate E replicant path change st = (res, st') \<Longrightarrow> frame st' = frame st"
  by (auto simp add: trap_validate_def split: prod.splits sum.splits if_splits
        dest!: frame_Replicant_validate)

lemma frame_trap_addOperation:
  "trap_addOperation E replicant path method args st = (res, st') \<Longrightarrow> frame st' = frame st"
  by (auto simp add: trap_addOperation_def split: sum.splits)

lemma frame_childSet:
  "childSet E target prop newValue st = (res, st') \<Longrightarrow> frame st' = frame st"
  by (auto simp add: childSet_def split: option.splits prod.splits sum.splits if_splits
        dest!: frame_trap_validate frame_trap_addOperation)

lemma frame_assign_prop:
  "assign_prop E a key v st = (res, st') \<Longrightarrow> frame st' = frame st"
  by (auto simp add: assign_prop_def split: option.splits cell.splits prod.splits sum.splits if_splits
        dest!: frame_childSet)

lemma frame_proxyRecursive_wrap:
  "proxyRecursive_wrap replicant a path st = (p, st') \<Longrightarrow> frame st' = frame st"
  by (auto simp add: proxyRecursive_wrap_def Let_def frame_def set_md_path_def
        split: option.splits if_splits)

lemma frame_proxyRecursive_loop:
  assumes "\<And>v p s res s'. recur v p s = (res, s') \<Longrightarrow> frame s' = frame s"
  shows "proxyRecursive_loop recur E a path keys st = (res, st') \<Longrightarrow> frame st' = frame st"
proof (induction keys arbitrary: st)
  case Nil
  then show ?case by simp
next
  case (Cons key keys)
  show ?case
  proof (cases "recur (get_prop st a key)
             (if path \<noteq> [] then joinPathParts path (tokenize key) else tokenize key) st")
    case (Pair r1 st1)
    note rec = assms [OF Pair]
    show ?thesis
    proof (cases r1)
      case (Inl e)
      with Cons.prems Pair rec show ?thesis by simp
    next
      case (Inr child)
      show ?thesis
      proof (cases "assign_prop E a key child st1")
        case (Pair r2 st2)
        note asg = frame_assign_prop [OF Pair]
        show ?thesis
        proof (cases r2)
          case (Inl e)
          with Cons.prems \<open>recur _ _ st = (r1, st1)\<close> \<open>r1 = Inr child\<close> Pair rec asg
          show ?thesis by simp
        next
          case (Inr u)
          with Cons.prems \<open>recur _ _ st = (r1, st1)\<close> \<open>r1 = Inr child\<close> Pair
          have "proxyRecursive_loop recur E a path keys st2 = (res, st')" by simp
          from Cons.IH [OF this] rec asg show ?thesis by simp
        qed
      qed
    qed
  qed
qed

lemma frame_proxyRecursive:
  "proxyRecursive n E replicant v path st = (res, st') \<Longrightarrow> frame st' = frame st"
proof (induction n arbitrary: v path st res st')
  case 0
  then show ?case by simp
next
  case (Suc n)
  show ?case
  proof (cases v)
    case (Ref a)
    show ?thesis
    proof (cases "assertSingleOwner E replicant a st")
      case (Inl e)
      with Suc.prems Ref show ?thesis by simp
    next
      case (Inr u)
      obtain p st1 where w: "proxyRecursive_wrap replicant a path st = (p, st1)"
        by (cases "proxyRecursive_wrap replicant a path st")
      obtain r2 st2 where l: "proxyRecursive_loop (proxyRecursive n E replicant) E a path
                            (own_keys (heap st1) a) st1 = (r2, st2)"
        by (cases "proxyRecursive_loop (proxyRecursive n E replicant) E a path
                            (own_keys (heap st1) a) st1")
      have "frame st2 = frame st1"
        using frame_proxyRecursive_loop [OF Suc.IH l] .
      moreover have "frame st1 = frame st"
        using frame_proxyRecursive_wrap [OF w] .
      moreover have "st' = st2"
        using Suc.prems Ref Inr w l by (cases r2) auto
      ultimately show ?thesis by simp
    qed
  qed (use Suc.prems in auto)
qed

subsection \<open>Reading fields off the frame\<close>

lemma frame_fields:
  assumes "frame st' = frame st"
  shows "length (replicants st') = length (replicants st)"
    and "events st' = events st"
    and "emitted st' = emitted st"
    and "handlers st' = handlers st"
    and "declaredReplicants st' = declaredReplicants st"
    and "optsHeap st' = optsHeap st"
    and "i < length (replicants st) \<Longrightarrow> rep_frame (replicants st' ! i) = rep_frame (replicants st ! i)"
proof -
  from assms have m: "map rep_frame (replicants st') = map rep_frame (replicants st)"
    by (simp add: frame_def)
  then show len: "length (replicants st') = length (replicants st)"
    by (metis length_map)
  show "i < length (replicants st) \<Longrightarrow> rep_frame (replicants st' ! i) = rep_frame (replicants st ! i)"
    using m len by (metis nth_map)
qed (use assms in \<open>simp_all add: frame_def\<close>)

lemma rep_frame_fields:
  assumes "rep_frame r' = rep_frame r"
  shows "val r' = val r" and "revision r' = revision r" and "status r' = status r"
    and "name r' = name r" and "namespace r' = namespace r" and "actionQueue r' = actionQueue r"
    and "socket r' = socket r" and "schema r' = schema r" and "validator r' = validator r"
proof -
  have "val (rep_frame r') = val (rep_frame r)" "revision (rep_frame r') = revision (rep_frame r)"
    "status (rep_frame r') = status (rep_frame r)" "name (rep_frame r') = name (rep_frame r)"
    "namespace (rep_frame r') = namespace (rep_frame r)"
    "actionQueue (rep_frame r') = actionQueue (rep_frame r)"
    "socket (rep_frame r') = socket (rep_frame r)" "schema (rep_frame r') = schema (rep_frame r)"
    "validator (rep_frame r') = validator (rep_frame r)"
    using assms by simp_all
  then show "val r' = val r" and "revision r' = revision r" and "status r' = status r"
    and "name r' = name r" and "namespace r' = namespace r" and "actionQueue r' = actionQueue r"
    and "socket r' = socket r" and "schema r' = schema r" and "validator r' = validator r"
    by (simp_all add: rep_frame_def)
qed

subsection \<open>Metadata of nodes owned by other Replicants\<close>




lemma metadataMap_upd_rep [simp]: "metadataMap (upd_rep i f st) = metadataMap st"
  by (simp add: upd_rep_def)










subsection \<open>Single ownership\<close>






lemma st_two_names: "name (replicants st_two ! 0) = ''a'' \<and> namespace (replicants st_two ! 0) = ''bundle''"
  by code_simp

lemma st_two_length: "length (replicants st_two) = 2"
  by code_simp

lemma st_two_val0: "val (replicants st_two ! 0) = Ref 2"
  by code_simp




subsection \<open>Assign\<close>

lemma upd_rep_nth:
  "i < length (replicants st) \<Longrightarrow> replicants (upd_rep i f st) ! i = f (replicants st ! i)"
  by (simp add: upd_rep_def)

lemma upd_rep_twice:
  "upd_rep i g (upd_rep i f st) = upd_rep i (\<lambda>r. g (f r)) st"
  by (cases "i < length (replicants st)") (simp_all add: upd_rep_def list_update_beyond)

lemma upd_rep_length [simp]: "length (replicants (upd_rep i f st)) = length (replicants st)"
  by (simp add: upd_rep_def)

text \<open>
  C5, as amended.  \<open>_assignValue\<close> on an existing Replicant first takes the snapshot
  \<open>oldValue\<close> with \<open>clone\<close> and then wraps the new value with \<open>proxyRecursive\<close> at the
  root path \<open>/\<close>, whose list of segments is empty.  When the wrap returns the wrapped
  value, that value is stored, the revision is replaced exactly when one is supplied, and
  exactly one \<open>change\<close> event is appended, carrying the new value and the snapshot.
  When the wrap raises (a node owned by another Replicant, or the stack exhausted), the
  error is passed on: value and revision stay as they were and no event is emitted.
\<close>

theorem assignValue_wraps_then_notifies:
  "this < length (replicants st)
   \<and> lib_clone E (heap st) (val (replicants st ! this)) = (oldValue, h)
   \<longrightarrow> (\<forall>p st1. proxyRecursive n E this newValue ''/'' (st\<lparr>heap := h\<rparr>) = (Inr p, st1)
           \<longrightarrow> Replicant_assignValue n E this newValue rv st =
                 (Inr (),
                  emit_event this ''change'' [ArgValue p, ArgValue oldValue]
                    (upd_rep this
                       (\<lambda>r. r\<lparr>val := p,
                               revision := (case rv of None \<Rightarrow> revision r | Some k \<Rightarrow> k)\<rparr>)
                       st1)))
       \<and> (\<forall>e st1. proxyRecursive n E this newValue ''/'' (st\<lparr>heap := h\<rparr>) = (Inl e, st1)
           \<longrightarrow> Replicant_assignValue n E this newValue rv st = (Inl e, st1)
               \<and> val (replicants st1 ! this) = val (replicants st ! this)
               \<and> revision (replicants st1 ! this) = revision (replicants st ! this)
               \<and> events st1 = events st)
       \<and> pathStrToPathArr ''/'' = []"
proof (intro impI conjI allI)
  fix p st1
  assume a: "this < length (replicants st)
     \<and> lib_clone E (heap st) (val (replicants st ! this)) = (oldValue, h)"
    and run: "proxyRecursive n E this newValue ''/'' (st\<lparr>heap := h\<rparr>) = (Inr p, st1)"
  have len: "this < length (replicants st1)"
    using frame_fields(1) [OF frame_proxyRecursive [OF run]] a by simp
  show "Replicant_assignValue n E this newValue rv st =
                 (Inr (),
                  emit_event this ''change'' [ArgValue p, ArgValue oldValue]
                    (upd_rep this
                       (\<lambda>r. r\<lparr>val := p,
                               revision := (case rv of None \<Rightarrow> revision r | Some k \<Rightarrow> k)\<rparr>)
                       st1))"
  proof (cases rv)
    case None
    with a run len show ?thesis
      by (simp add: Replicant_assignValue_def Let_def upd_rep_nth)
  next
    case (Some k)
    with a run len show ?thesis
      by (simp add: Replicant_assignValue_def Let_def upd_rep_nth upd_rep_twice)
  qed
next
  fix e st1
  assume a: "this < length (replicants st)
     \<and> lib_clone E (heap st) (val (replicants st ! this)) = (oldValue, h)"
    and run: "proxyRecursive n E this newValue ''/'' (st\<lparr>heap := h\<rparr>) = (Inl e, st1)"
  note fr = frame_proxyRecursive [OF run]
  have r: "rep_frame (replicants st1 ! this) = rep_frame (replicants st ! this)"
    using frame_fields(7) [OF fr, of this] a by simp
  show "Replicant_assignValue n E this newValue rv st = (Inl e, st1)"
    using a run by (simp add: Replicant_assignValue_def)
  show "val (replicants st1 ! this) = val (replicants st ! this)"
    using rep_frame_fields(1) [OF r] .
  show "revision (replicants st1 ! this) = revision (replicants st ! this)"
    using rep_frame_fields(2) [OF r] .
  show "events st1 = events st"
    using frame_fields(2) [OF fr] by simp
next
  show "pathStrToPathArr ''/'' = []"
    by (simp add: pathStrToPathArr_def)
qed

lemma st_objects_length: "length (replicants st_objects) = 1"
  by code_simp

lemma st_objects_clone:
  "lib_clone ext0 (heap st_objects) (val (replicants st_objects ! 0)) = (Undefined, heap st_objects)"
  by code_simp

lemma st_objects_wrap:
  "fst (proxyRecursive frames ext0 0 (Ref 0) ''/'' st_objects) = Inr (Ref 2)"
  by code_simp

theorem assignValue_wraps_then_notifies_witness:
  "Replicant_assignValue frames ext0 0 (Ref 0) (Some 1) st_objects =
     (Inr (),
      emit_event 0 ''change'' [ArgValue (Ref 2), ArgValue Undefined]
        (upd_rep 0 (\<lambda>r. r\<lparr>val := Ref 2, revision := 1\<rparr>)
           (snd (proxyRecursive frames ext0 0 (Ref 0) ''/'' st_objects))))
   \<and> Replicant_assignValue frames ext0 0 (Ref 0) None st_objects =
     (Inr (),
      emit_event 0 ''change'' [ArgValue (Ref 2), ArgValue Undefined]
        (upd_rep 0 (\<lambda>r. r\<lparr>val := Ref 2\<rparr>)
           (snd (proxyRecursive frames ext0 0 (Ref 0) ''/'' st_objects))))"
proof -
  have run: "proxyRecursive frames ext0 0 (Ref 0) ''/'' (st_objects\<lparr>heap := heap st_objects\<rparr>)
               = (Inr (Ref 2), snd (proxyRecursive frames ext0 0 (Ref 0) ''/'' st_objects))"
    using st_objects_wrap by (simp add: prod_eq_iff)
  show ?thesis
    using assignValue_wraps_then_notifies
            [where this = 0 and st = st_objects and E = ext0 and oldValue = Undefined
               and h = "heap st_objects" and n = frames and newValue = "Ref 0" and rv = "Some 1"]
          assignValue_wraps_then_notifies
            [where this = 0 and st = st_objects and E = ext0 and oldValue = Undefined
               and h = "heap st_objects" and n = frames and newValue = "Ref 0" and rv = None]
          st_objects_length st_objects_clone run
    by simp
qed

text \<open>
  C5 as stated fails on a value that the single-owner guard refuses: assigning object 0,
  owned by \<open>a\<close>, to \<open>b\<close> with revision 5 raises the ownership error, emits no \<open>change\<close>
  event and leaves the revision of \<open>b\<close> at 0 although a revision was supplied.
\<close>

theorem assignValue_foreign_value_no_notification:
  "fst (Replicant_assignValue frames ext0 1 (Ref 0) (Some 5) st_two)
     = Inl (Error (ownerMessage ''bundle'' ''a'' (lib_stringify ext0 (heap st_two) (Ref 0))))
   \<and> events (snd (Replicant_assignValue frames ext0 1 (Ref 0) (Some 5) st_two)) = events st_two
   \<and> revision (replicants (snd (Replicant_assignValue frames ext0 1 (Ref 0) (Some 5) st_two)) ! 1) = 0
   \<and> val (replicants (snd (Replicant_assignValue frames ext0 1 (Ref 0) (Some 5) st_two)) ! 1) = Undefined"
  by code_simp

subsection \<open>The frame of applyOperation\<close>

lemma frame_deleteTrap:
  "deleteTrap E target prop st = (res, st') \<Longrightarrow> frame st' = frame st"
  by (auto simp add: deleteTrap_def split: option.splits prod.splits sum.splits if_splits
        dest!: frame_trap_validate frame_trap_addOperation)

lemma frame_delete_prop:
  "delete_prop E target prop st = (res, st') \<Longrightarrow> frame st' = frame st"
  by (auto simp add: delete_prop_def
        split: jsval.splits option.splits cell.splits prod.splits sum.splits if_splits
        dest!: frame_deleteTrap)

lemma frame_applyOperation:
  assumes "applyOperation n E replicant operation st = (res, st')"
  shows "frame st' = frame st"
proof (cases "truthy (val (replicants st ! replicant))")
  case False
  with assms show ?thesis by (simp add: applyOperation_def)
next
  case True
  define st1 where "st1 = set_ignoreProxy replicant True st"
  have f1: "frame st1 = frame st" by (simp add: st1_def)
  define path where "path = pathStrToPathArr (op_path operation)"
  define v where "v = val (replicants st1 ! replicant)"
  consider
      (mutator) "List.member ARRAY_MUTATOR_METHODS (op_method operation)"
    | (setter) "\<not> List.member ARRAY_MUTATOR_METHODS (op_method operation)"
        "op_method operation = ''add'' \<or> op_method operation = ''update''"
    | (delete) "\<not> List.member ARRAY_MUTATOR_METHODS (op_method operation)"
        "\<not> (op_method operation = ''add'' \<or> op_method operation = ''update'')"
        "op_method operation = ''delete''"
    | (other) "\<not> List.member ARRAY_MUTATOR_METHODS (op_method operation)"
        "\<not> (op_method operation = ''add'' \<or> op_method operation = ''update'')"
        "op_method operation \<noteq> ''delete''"
    by blast
  then show ?thesis
  proof cases
    case mutator
    obtain r1 h where m: "lib_arrayMethod E (op_method operation) (heap st1)
        (lib_get E (heap st1) v path) (args_list (op_args operation)) = (r1, h)"
      by (cases "lib_arrayMethod E (op_method operation) (heap st1)
        (lib_get E (heap st1) v path) (args_list (op_args operation))")
    show ?thesis
    proof (cases r1)
      case (Inl e)
      with assms True mutator m have "st' = st1\<lparr>heap := h\<rparr>"
        by (simp add: applyOperation_def Let_def st1_def path_def v_def)
      with f1 show ?thesis by simp
    next
      case (Inr result)
      obtain r2 st2 where w: "proxyRecursive n E replicant (lib_get E (heap st1) v path)
          (op_path operation) (st1\<lparr>heap := h\<rparr>) = (r2, st2)"
        by (cases "proxyRecursive n E replicant (lib_get E (heap st1) v path)
          (op_path operation) (st1\<lparr>heap := h\<rparr>)")
      have f2: "frame st2 = frame st" using frame_proxyRecursive [OF w] f1 by simp
      from assms True mutator m Inr w have "st' = st2 \<or> st' = set_ignoreProxy replicant False st2"
        by (cases r2) (simp_all add: applyOperation_def Let_def st1_def path_def v_def)
      with f2 show ?thesis by auto
    qed
  next
    case setter
    show ?thesis
    proof (cases "typeof (args_newValue (op_args operation)) = ''object''")
      case False
      obtain result h where s:
        "lib_set E (heap st1) v (path @ [args_prop (op_args operation)])
           (args_newValue (op_args operation)) = (result, h)"
        by (cases "lib_set E (heap st1) v (path @ [args_prop (op_args operation)])
           (args_newValue (op_args operation))")
      with assms True setter False
      have "st' = st1\<lparr>heap := h\<rparr> \<or> st' = set_ignoreProxy replicant False (st1\<lparr>heap := h\<rparr>)"
        by (cases result) (simp_all add: applyOperation_def Let_def st1_def path_def v_def)
      with f1 show ?thesis by auto
    next
      case obj: True
      obtain r2 st2 where w:
        "proxyRecursive n E replicant (args_newValue (op_args operation))
            (pathArrToPathStr (path @ [args_prop (op_args operation)])) st1 = (r2, st2)"
        by (cases "proxyRecursive n E replicant (args_newValue (op_args operation))
            (pathArrToPathStr (path @ [args_prop (op_args operation)])) st1")
      have f2: "frame st2 = frame st"
        using frame_proxyRecursive [OF w] f1 by simp
      show ?thesis
      proof (cases r2)
        case (Inl e)
        with assms True setter obj w have "st' = st2"
          by (simp add: applyOperation_def Let_def st1_def path_def v_def)
        with f2 show ?thesis by simp
      next
        case (Inr newValue)
        obtain result h where s:
          "lib_set E (heap st2) v (path @ [args_prop (op_args operation)]) newValue = (result, h)"
          by (cases "lib_set E (heap st2) v (path @ [args_prop (op_args operation)]) newValue")
        with assms True setter obj w Inr
        have "st' = st2\<lparr>heap := h\<rparr> \<or> st' = set_ignoreProxy replicant False (st2\<lparr>heap := h\<rparr>)"
          by (cases result) (simp_all add: applyOperation_def Let_def st1_def path_def v_def)
        with f2 show ?thesis by auto
      qed
    qed
  next
    case delete
    show ?thesis
    proof (cases "path = [] \<or> lib_has E (heap st1) v path")
      case False
      with assms True delete have "st' = set_ignoreProxy replicant False st1"
        by (simp add: applyOperation_def Let_def st1_def path_def v_def)
      with f1 show ?thesis by simp
    next
      case yes: True
      obtain r2 st2 where d: "delete_prop E (lib_get E (heap st1) v path)
          (args_prop (op_args operation)) st1 = (r2, st2)"
        by (cases "delete_prop E (lib_get E (heap st1) v path)
          (args_prop (op_args operation)) st1")
      have f2: "frame st2 = frame st" using frame_delete_prop [OF d] f1 by simp
      from assms True delete yes d have "st' = st2 \<or> st' = set_ignoreProxy replicant False st2"
        by (cases r2) (simp_all add: applyOperation_def Let_def st1_def path_def v_def)
      with f2 show ?thesis by auto
    qed
  next
    case other
    with assms True have "st' = st1"
      by (simp add: applyOperation_def Let_def st1_def path_def v_def)
    with f1 show ?thesis by simp
  qed
qed

lemma frame_applyOperations:
  "applyOperations n E this ops st = (res, st') \<Longrightarrow> frame st' = frame st"
proof (induction ops arbitrary: st res st')
  case Nil
  then show ?case by simp
next
  case (Cons operation rest)
  obtain r1 st1 where a: "applyOperation n E this operation st = (r1, st1)"
    by (cases "applyOperation n E this operation st")
  note f1 = frame_applyOperation [OF a]
  show ?case
  proof (cases r1)
    case (Inl e)
    with Cons.prems a f1 show ?thesis by simp
  next
    case (Inr result)
    obtain r2 st2 where b: "applyOperations n E this rest st1 = (r2, st2)"
      by (cases "applyOperations n E this rest st1")
    have "frame st2 = frame st" using Cons.IH [OF b] f1 by simp
    moreover have "st' = st2" using Cons.prems a Inr b by (cases r2) auto
    ultimately show ?thesis by simp
  qed
qed

lemma applyOperations_applied:
  "applyOperations n E this ops st = (Inr applied, st')
     \<Longrightarrow> map (\<lambda>x. x\<lparr>op_result := Undefined\<rparr>) applied = map (\<lambda>x. x\<lparr>op_result := Undefined\<rparr>) ops"
proof (induction ops arbitrary: st applied st')
  case Nil
  then show ?case by simp
next
  case (Cons operation rest)
  then show ?case
    by (auto split: prod.splits sum.splits)
qed

lemma applyOperations_append:
  "applyOperations n E this (xs @ ys) st =
     (case applyOperations n E this xs st of
        (Inl e, st1) \<Rightarrow> (Inl e, st1)
      | (Inr applied1, st1) \<Rightarrow>
          (case applyOperations n E this ys st1 of
             (Inl e, st2) \<Rightarrow> (Inl e, st2)
           | (Inr applied2, st2) \<Rightarrow> (Inr (applied1 @ applied2), st2)))"
  by (induction xs arbitrary: st) (auto split: prod.splits sum.splits)

subsection \<open>Remote operations\<close>

lemma ulp_of_small: "a < 9007199254740992 \<Longrightarrow> ulp_of a = 1"
  by (subst ulp_of.simps) simp

lemma ulp_of_next:
  "9007199254740992 \<le> a \<Longrightarrow> a < 18014398509481984 \<Longrightarrow> ulp_of a = 2"
  by (subst ulp_of.simps) (simp add: ulp_of_small)

lemma double_round_exact:
  assumes "\<bar>x\<bar> \<le> 9007199254740992"
  shows "double_round x = x"
proof (cases "\<bar>x\<bar> = 9007199254740992")
  case True
  then have "double_round x = sgn x * \<bar>x\<bar>"
    by (simp add: double_round_def Let_def ulp_of_next)
  then show ?thesis by (simp add: mult_sgn_abs)
next
  case False
  with assms have "\<bar>x\<bar> < 9007199254740992" by simp
  then have "double_round x = sgn x * \<bar>x\<bar>"
    by (simp add: double_round_def Let_def ulp_of_small)
  then show ?thesis by (simp add: mult_sgn_abs)
qed

lemma double_round_succ:
  "- 9007199254740992 \<le> r \<Longrightarrow> r < 9007199254740992 \<Longrightarrow> double_round (r + 1) = r + 1"
  by (rule double_round_exact) simp

lemma double_round_limit: "double_round (9007199254740992 + 1) = 9007199254740992"
  by code_simp

text \<open>
  C1, as amended.  For an existing Replicant at revision \<open>r\<close>, the expected revision is
  \<open>r + 1\<close> as the double addition gives it: \<open>r + 1\<close> itself while
  \<open>- 2 ^ 53 \<le> r < 2 ^ 53\<close>, but \<open>r\<close> at \<open>r = 2 ^ 53\<close>.  A \<open>replicant:operations\<close> message
  that arrives while the status is not \<open>declared\<close>, or that names another name or
  namespace, changes nothing.  A matching message whose revision is not the expected one
  applies no operation and leaves the revision: the handler is exactly \<open>_fullUpdate\<close>,
  which (name and namespace being non-empty) emits one \<open>replicant:read\<close> whose
  acknowledgement callback emits \<open>fullUpdate\<close> and runs Assign.  A matching message at the
  expected revision applies the operations in array order (\<open>applyOperations\<close>); when none
  of them raises, the revision becomes that of the message and one \<open>change\<close> event is
  emitted with the value, the snapshot of the old value and the batch with each result
  stored; when one raises, its error is passed on, the revision stays \<open>r\<close> and no \<open>change\<close>
  event is emitted.
\<close>

theorem handleOperations_by_revision:
  "this < length (replicants st)
   \<longrightarrow>
   (status (replicants st ! this) \<noteq> Declared
      \<or> od_name data \<noteq> name (replicants st ! this)
      \<or> od_namespace data \<noteq> namespace (replicants st ! this)
      \<longrightarrow> Replicant_handleOperations n E this data st = (Inr (), st))
   \<and> (status (replicants st ! this) = Declared
       \<and> od_name data = name (replicants st ! this)
       \<and> od_namespace data = namespace (replicants st ! this)
       \<and> od_revision data \<noteq> double_round (revision (replicants st ! this) + 1)
      \<longrightarrow> Replicant_handleOperations n E this data st = Replicant_fullUpdate this st
          \<and> (name (replicants st ! this) \<noteq> [] \<and> namespace (replicants st ! this) \<noteq> []
              \<longrightarrow> Replicant_fullUpdate this st =
                    (Inr (),
                     st\<lparr>emitted := emitted st @
                          [\<lparr>m_socket = socket (replicants st ! this), m_event = ''replicant:read'',
                            m_payload = ReadPayload (Str (name (replicants st ! this)))
                                          (Str (namespace (replicants st ! this))),
                            m_ack = Some (FullUpdateCallback this)\<rparr>]\<rparr>))
          \<and> heap (snd (Replicant_fullUpdate this st)) = heap st
          \<and> replicants (snd (Replicant_fullUpdate this st)) = replicants st
          \<and> fullUpdateCallback n E this reply st =
              Replicant_assignValue n E this (a_value reply) (a_revision reply)
                (emit_event this ''fullUpdate'' [ArgData reply] st))
   \<and> (status (replicants st ! this) = Declared
       \<and> od_name data = name (replicants st ! this)
       \<and> od_namespace data = namespace (replicants st ! this)
       \<and> od_revision data = double_round (revision (replicants st ! this) + 1)
       \<and> lib_clone E (heap st) (val (replicants st ! this)) = (oldValue, h)
      \<longrightarrow> (\<forall>applied st1.
              applyOperations n E this (od_operations data) (st\<lparr>heap := h\<rparr>) = (Inr applied, st1)
              \<longrightarrow> Replicant_handleOperations n E this data st =
                    (Inr (),
                     emit_event this ''change''
                       [ArgValue (val (replicants st ! this)), ArgValue oldValue,
                        ArgOperations applied]
                       (upd_rep this
                          (\<lambda>r. r\<lparr>revision :=
                                    double_round (revision (replicants st ! this) + 1)\<rparr>) st1))
                  \<and> map (\<lambda>x. x\<lparr>op_result := Undefined\<rparr>) applied
                      = map (\<lambda>x. x\<lparr>op_result := Undefined\<rparr>) (od_operations data))
          \<and> (\<forall>e st1.
              applyOperations n E this (od_operations data) (st\<lparr>heap := h\<rparr>) = (Inl e, st1)
              \<longrightarrow> Replicant_handleOperations n E this data st = (Inl e, st1)
                  \<and> revision (replicants st1 ! this) = revision (replicants st ! this)
                  \<and> events st1 = events st))
   \<and> (- 9007199254740992 \<le> revision (replicants st ! this)
       \<and> revision (replicants st ! this) < 9007199254740992
      \<longrightarrow> double_round (revision (replicants st ! this) + 1) = revision (replicants st ! this) + 1)
   \<and> (revision (replicants st ! this) = 9007199254740992
      \<longrightarrow> double_round (revision (replicants st ! this) + 1) = revision (replicants st ! this))"
proof (intro impI conjI allI)
  assume "status (replicants st ! this) \<noteq> Declared
      \<or> od_name data \<noteq> name (replicants st ! this)
      \<or> od_namespace data \<noteq> namespace (replicants st ! this)"
  then show "Replicant_handleOperations n E this data st = (Inr (), st)"
    by (auto simp add: Replicant_handleOperations_def Let_def)
next
  assume "status (replicants st ! this) = Declared
       \<and> od_name data = name (replicants st ! this)
       \<and> od_namespace data = namespace (replicants st ! this)
       \<and> od_revision data \<noteq> double_round (revision (replicants st ! this) + 1)"
  then show "Replicant_handleOperations n E this data st = Replicant_fullUpdate this st"
    by (simp add: Replicant_handleOperations_def Let_def)
next
  assume "name (replicants st ! this) \<noteq> [] \<and> namespace (replicants st ! this) \<noteq> []"
  then show "Replicant_fullUpdate this st =
                    (Inr (),
                     st\<lparr>emitted := emitted st @
                          [\<lparr>m_socket = socket (replicants st ! this), m_event = ''replicant:read'',
                            m_payload = ReadPayload (Str (name (replicants st ! this)))
                                          (Str (namespace (replicants st ! this))),
                            m_ack = Some (FullUpdateCallback this)\<rparr>]\<rparr>)"
    by (simp add: Replicant_fullUpdate_def readReplicant_def socket_emit_def)
next
  show "heap (snd (Replicant_fullUpdate this st)) = heap st"
    by (simp add: Replicant_fullUpdate_def readReplicant_def socket_emit_def)
next
  show "replicants (snd (Replicant_fullUpdate this st)) = replicants st"
    by (simp add: Replicant_fullUpdate_def readReplicant_def socket_emit_def)
next
  show "fullUpdateCallback n E this reply st =
              Replicant_assignValue n E this (a_value reply) (a_revision reply)
                (emit_event this ''fullUpdate'' [ArgData reply] st)"
    by (simp add: fullUpdateCallback_def)
next
  fix applied st1
  assume len: "this < length (replicants st)"
    and h: "status (replicants st ! this) = Declared
       \<and> od_name data = name (replicants st ! this)
       \<and> od_namespace data = namespace (replicants st ! this)
       \<and> od_revision data = double_round (revision (replicants st ! this) + 1)
       \<and> lib_clone E (heap st) (val (replicants st ! this)) = (oldValue, h)"
    and run: "applyOperations n E this (od_operations data) (st\<lparr>heap := h\<rparr>) = (Inr applied, st1)"
  note fr = frame_applyOperations [OF run]
  have len1: "this < length (replicants st1)"
    using frame_fields(1) [OF fr] len by simp
  have r: "rep_frame (replicants st1 ! this) = rep_frame (replicants st ! this)"
    using frame_fields(7) [OF fr, of this] len by simp
  have v: "val (replicants st1 ! this) = val (replicants st ! this)"
    using rep_frame_fields(1) [OF r] .
  show "Replicant_handleOperations n E this data st =
                    (Inr (),
                     emit_event this ''change''
                       [ArgValue (val (replicants st ! this)), ArgValue oldValue,
                        ArgOperations applied]
                       (upd_rep this
                          (\<lambda>r. r\<lparr>revision :=
                                    double_round (revision (replicants st ! this) + 1)\<rparr>) st1))"
    using h run len1 v by (simp add: Replicant_handleOperations_def Let_def upd_rep_nth)
  show "map (\<lambda>x. x\<lparr>op_result := Undefined\<rparr>) applied
          = map (\<lambda>x. x\<lparr>op_result := Undefined\<rparr>) (od_operations data)"
    using applyOperations_applied [OF run] .
next
  fix e st1
  assume len: "this < length (replicants st)"
    and h: "status (replicants st ! this) = Declared
       \<and> od_name data = name (replicants st ! this)
       \<and> od_namespace data = namespace (replicants st ! this)
       \<and> od_revision data = double_round (revision (replicants st ! this) + 1)
       \<and> lib_clone E (heap st) (val (replicants st ! this)) = (oldValue, h)"
    and run: "applyOperations n E this (od_operations data) (st\<lparr>heap := h\<rparr>) = (Inl e, st1)"
  note fr = frame_applyOperations [OF run]
  have r: "rep_frame (replicants st1 ! this) = rep_frame (replicants st ! this)"
    using frame_fields(7) [OF fr, of this] len by simp
  show "Replicant_handleOperations n E this data st = (Inl e, st1)"
    using h run by (simp add: Replicant_handleOperations_def Let_def)
  show "revision (replicants st1 ! this) = revision (replicants st ! this)"
    using rep_frame_fields(2) [OF r] .
  show "events st1 = events st"
    using frame_fields(2) [OF fr] by simp
next
  assume "- 9007199254740992 \<le> revision (replicants st ! this)
       \<and> revision (replicants st ! this) < 9007199254740992"
  then show "double_round (revision (replicants st ! this) + 1)
               = revision (replicants st ! this) + 1"
    by (simp add: double_round_succ)
next
  assume "revision (replicants st ! this) = 9007199254740992"
  then show "double_round (revision (replicants st ! this) + 1) = revision (replicants st ! this)"
    using double_round_limit by simp
qed

text \<open>
  C1 as stated fails when an operation raises.  \<open>a\<close> was declared by a server that holds
  no value, so it is declared at revision 0 with the value undefined; a batch stamped
  revision 1 with one \<open>add\<close> operation makes \<open>applyOperation\<close> raise: the operation is not
  applied, the revision is still 0 and no \<open>change\<close> event is emitted.
\<close>

theorem handleOperations_undefined_value_raises:
  "status (replicants st_declared ! 0) = Declared
   \<and> revision (replicants st_declared ! 0) = 0
   \<and> val (replicants st_declared ! 0) = Undefined
   \<and> Replicant_handleOperations frames ext0 0 (add_batch 1) st_declared =
       (Inl (Error ''applyOperation called with Replicant with undefined value''), st_declared)"
  by code_simp

lemma st_two_status0: "status (replicants st_two ! 0) = Declared"
  by code_simp

lemma st_two_revision0: "revision (replicants st_two ! 0) = 1"
  by code_simp

lemma st_two_socket0: "socket (replicants st_two ! 0) = 0"
  by code_simp

lemma st_two_clone:
  "lib_clone ext0 (heap st_two) (val (replicants st_two ! 0))
     = (Ref 3, heap st_two @ [Plain False [(''x'', Num 1)]])"
  by code_simp

lemma st_two_apply:
  "fst (applyOperations frames ext0 0 (od_operations (add_batch 2))
          (st_two\<lparr>heap := heap st_two @ [Plain False [(''x'', Num 1)]]\<rparr>))
     = Inr [\<lparr>op_path = ''/'', op_method = ''add'', op_args = PropArgs ''y'' (Num 7),
            op_result = Undefined\<rparr>]"
  by code_simp

lemma st_two_applied_heap:
  "own_props (heap (snd (applyOperations frames ext0 0 (od_operations (add_batch 2))
          (st_two\<lparr>heap := heap st_two @ [Plain False [(''x'', Num 1)]]\<rparr>)))) 0
     = [(''x'', Num 1), (''y'', Num 7)]"
  by code_simp

lemma st_limit_facts:
  "length (replicants st_limit) = 1 + 1"
  "name (replicants st_limit ! 0) = ''a''"
  "namespace (replicants st_limit ! 0) = ''bundle''"
  "status (replicants st_limit ! 0) = Declared"
  "revision (replicants st_limit ! 0) = 9007199254740992"
  "lib_clone ext0 (heap st_limit) (val (replicants st_limit ! 0))
     = (Ref 3, heap st_limit @ [Plain False [(''x'', Num 1)]])"
  "fst (applyOperations frames ext0 0 (od_operations (add_batch 9007199254740992))
          (st_limit\<lparr>heap := heap st_limit @ [Plain False [(''x'', Num 1)]]\<rparr>))
     = Inr [\<lparr>op_path = ''/'', op_method = ''add'', op_args = PropArgs ''y'' (Num 7),
            op_result = Undefined\<rparr>]"
  by code_simp+

theorem handleOperations_by_revision_witness:
  "Replicant_handleOperations frames ext0 0 ((add_batch 2)\<lparr>od_name := ''other''\<rparr>) st_two
     = (Inr (), st_two)
   \<and> Replicant_handleOperations frames ext0 0 (add_batch 7) st_two
     = (Inr (),
        st_two\<lparr>emitted := emitted st_two @
                 [\<lparr>m_socket = 0, m_event = ''replicant:read'',
                   m_payload = ReadPayload (Str ''a'') (Str ''bundle''),
                   m_ack = Some (FullUpdateCallback 0)\<rparr>]\<rparr>)
   \<and> Replicant_handleOperations frames ext0 0 (add_batch 2) st_two
     = (Inr (),
        emit_event 0 ''change''
          [ArgValue (Ref 2), ArgValue (Ref 3),
           ArgOperations
             [\<lparr>op_path = ''/'', op_method = ''add'', op_args = PropArgs ''y'' (Num 7),
               op_result = Undefined\<rparr>]]
          (upd_rep 0 (\<lambda>r. r\<lparr>revision := 2\<rparr>)
             (snd (applyOperations frames ext0 0 (od_operations (add_batch 2))
                     (st_two\<lparr>heap := heap st_two @ [Plain False [(''x'', Num 1)]]\<rparr>)))))
   \<and> own_props (heap (snd (Replicant_handleOperations frames ext0 0 (add_batch 2) st_two))) 0
     = [(''x'', Num 1), (''y'', Num 7)]
   \<and> double_round (revision (replicants st_two ! 0) + 1) = 2
   \<and> double_round (revision (replicants st_limit ! 0) + 1) = 9007199254740992
   \<and> fst (Replicant_handleOperations frames ext0 0 (add_batch 9007199254740992) st_limit) = Inr ()"
proof -
  have run: "applyOperations frames ext0 0 (od_operations (add_batch 2))
               (st_two\<lparr>heap := heap st_two @ [Plain False [(''x'', Num 1)]]\<rparr>)
             = (Inr [\<lparr>op_path = ''/'', op_method = ''add'', op_args = PropArgs ''y'' (Num 7),
                      op_result = Undefined\<rparr>],
                snd (applyOperations frames ext0 0 (od_operations (add_batch 2))
                       (st_two\<lparr>heap := heap st_two @ [Plain False [(''x'', Num 1)]]\<rparr>)))"
    using st_two_apply by (simp add: prod_eq_iff)
  have 1: "Replicant_handleOperations frames ext0 0 ((add_batch 2)\<lparr>od_name := ''other''\<rparr>) st_two
     = (Inr (), st_two)"
    using handleOperations_by_revision
            [where this = 0 and st = st_two and E = ext0 and n = frames
               and data = "(add_batch 2)\<lparr>od_name := ''other''\<rparr>"]
          st_two_length st_two_names
    by (simp add: add_batch_def)
  have 2: "Replicant_handleOperations frames ext0 0 (add_batch 7) st_two
     = (Inr (),
        st_two\<lparr>emitted := emitted st_two @
                 [\<lparr>m_socket = 0, m_event = ''replicant:read'',
                   m_payload = ReadPayload (Str ''a'') (Str ''bundle''),
                   m_ack = Some (FullUpdateCallback 0)\<rparr>]\<rparr>)"
    using handleOperations_by_revision
            [where this = 0 and st = st_two and E = ext0 and n = frames and data = "add_batch 7"]
          st_two_length st_two_names st_two_status0 st_two_revision0 st_two_socket0
    by (simp add: add_batch_def)
  have 3: "Replicant_handleOperations frames ext0 0 (add_batch 2) st_two
     = (Inr (),
        emit_event 0 ''change''
          [ArgValue (Ref 2), ArgValue (Ref 3),
           ArgOperations
             [\<lparr>op_path = ''/'', op_method = ''add'', op_args = PropArgs ''y'' (Num 7),
               op_result = Undefined\<rparr>]]
          (upd_rep 0 (\<lambda>r. r\<lparr>revision := 2\<rparr>)
             (snd (applyOperations frames ext0 0 (od_operations (add_batch 2))
                     (st_two\<lparr>heap := heap st_two @ [Plain False [(''x'', Num 1)]]\<rparr>)))))"
    using handleOperations_by_revision
            [where this = 0 and st = st_two and E = ext0 and n = frames and data = "add_batch 2"
               and oldValue = "Ref 3" and h = "heap st_two @ [Plain False [(''x'', Num 1)]]"]
          st_two_length st_two_names st_two_status0 st_two_revision0 st_two_val0 st_two_clone run
    by (simp add: add_batch_def)
  have 4: "own_props (heap (snd (Replicant_handleOperations frames ext0 0 (add_batch 2) st_two))) 0
     = [(''x'', Num 1), (''y'', Num 7)]"
    unfolding 3 using st_two_applied_heap by (simp add: emit_event_def upd_rep_def)
  have 5: "double_round (revision (replicants st_two ! 0) + 1) = 2"
    using handleOperations_by_revision
            [where this = 0 and st = st_two, THEN mp, THEN conjunct2, THEN conjunct2,
             THEN conjunct2, THEN conjunct1]
          st_two_length st_two_revision0
    by simp
  have 6: "double_round (revision (replicants st_limit ! 0) + 1) = 9007199254740992"
    using handleOperations_by_revision
            [where this = 0 and st = st_limit, THEN mp, THEN conjunct2, THEN conjunct2,
             THEN conjunct2, THEN conjunct2]
          st_limit_facts(1,5)
    by simp
  have run_limit:
    "applyOperations frames ext0 0 (od_operations (add_batch 9007199254740992))
       (st_limit\<lparr>heap := heap st_limit @ [Plain False [(''x'', Num 1)]]\<rparr>)
     = (Inr [\<lparr>op_path = ''/'', op_method = ''add'', op_args = PropArgs ''y'' (Num 7),
              op_result = Undefined\<rparr>],
        snd (applyOperations frames ext0 0 (od_operations (add_batch 9007199254740992))
               (st_limit\<lparr>heap := heap st_limit @ [Plain False [(''x'', Num 1)]]\<rparr>)))"
    using st_limit_facts(7) by (simp add: prod_eq_iff)
  have 7: "fst (Replicant_handleOperations frames ext0 0 (add_batch 9007199254740992) st_limit)
             = Inr ()"
    using handleOperations_by_revision
            [where this = 0 and st = st_limit and E = ext0 and n = frames
               and data = "add_batch 9007199254740992"
               and oldValue = "Ref 3" and h = "heap st_limit @ [Plain False [(''x'', Num 1)]]",
             THEN mp, THEN conjunct2, THEN conjunct2, THEN conjunct1]
          st_limit_facts(1-6) 6 run_limit
    by (simp add: add_batch_def)
  from 1 2 3 4 5 6 7 show ?thesis by simp
qed

text \<open>
  At revision \<open>2 ^ 53\<close> the sum \<open>revision + 1\<close> rounds back to \<open>2 ^ 53\<close>: a batch stamped
  with the local revision itself is applied and nothing is requested from the server; a
  batch stamped with the next double, \<open>2 ^ 53 + 2\<close>, is answered by a full update.
\<close>

lemma handleOperations_at_double_limit:
  "revision (replicants st_limit ! 0) = 9007199254740992
   \<and> fst (Replicant_handleOperations frames ext0 0 (add_batch 9007199254740992) st_limit) = Inr ()
   \<and> own_props (heap (snd (Replicant_handleOperations frames ext0 0
                              (add_batch 9007199254740992) st_limit))) 0
       = [(''x'', Num 1), (''y'', Num 7)]
   \<and> emitted (snd (Replicant_handleOperations frames ext0 0
                     (add_batch 9007199254740992) st_limit)) = emitted st_limit
   \<and> Replicant_handleOperations frames ext0 0 (add_batch 9007199254740994) st_limit
       = Replicant_fullUpdate 0 st_limit"
  by code_simp

subsection \<open>Assigning the value through the handle\<close>

lemma status_Replicant_validate:
  "Replicant_validate E this v t st = (res, st1)
     \<Longrightarrow> status (replicants st1 ! i) = status (replicants st ! i)
         \<and> actionQueue (replicants st1 ! i) = actionQueue (replicants st ! i)
         \<and> emitted st1 = emitted st"
  by (cases "this < length (replicants st)")
     (auto simp add: Replicant_validate_def Let_def upd_rep_def nth_list_update list_update_beyond
        split: option.splits prod.splits sum.splits if_splits)

lemma rep_frame_opts:
  assumes "rep_frame r' = rep_frame r"
  shows "opts r' = opts r" and "schemaSum r' = schemaSum r"
proof -
  have "opts (rep_frame r') = opts (rep_frame r)" "schemaSum (rep_frame r') = schemaSum (rep_frame r)"
    using assms by simp_all
  then show "opts r' = opts r" and "schemaSum r' = schemaSum r"
    by (simp_all add: rep_frame_def)
qed

lemma runActions_emitted:
  "runActions this q st =
     st\<lparr>emitted := emitted st @
          map (\<lambda>item.
                 \<lparr>m_socket = socket (replicants st ! this),
                  m_event = ''replicant:proposeAssignment'',
                  m_payload =
                    ProposePayload (name (replicants st ! this)) (namespace (replicants st ! this))
                      (case snd item of [] \<Rightarrow> Undefined | v # vs \<Rightarrow> v)
                      (schemaSum (replicants st ! this)) (opts (replicants st ! this)),
                  m_ack = Some (ProposeAssignmentCallback this)\<rparr>) q\<rparr>"
proof (induction q arbitrary: st)
  case Nil
  show ?case by simp
next
  case (Cons item q)
  obtain fn args where item: "item = (fn, args)" by (cases item)
  show ?case
    unfolding item
    by (cases fn) (simp add: Cons.IH Replicant_proposeAssignment_def socket_emit_def Let_def)
qed

text \<open>The fields of a Replicant that a replayed proposal reads, with the log of messages.\<close>

lemma assignValue_keeps:
  assumes run: "Replicant_assignValue n E this v rv st = (Inr u, st')"
    and len: "this < length (replicants st)"
  shows "emitted st' = emitted st"
    and "length (replicants st') = length (replicants st)"
    and "name (replicants st' ! this) = name (replicants st ! this)"
    and "namespace (replicants st' ! this) = namespace (replicants st ! this)"
    and "socket (replicants st' ! this) = socket (replicants st ! this)"
    and "opts (replicants st' ! this) = opts (replicants st ! this)"
    and "schemaSum (replicants st' ! this) = schemaSum (replicants st ! this)"
    and "actionQueue (replicants st' ! this) = actionQueue (replicants st ! this)"
proof -
  obtain oldValue h where c: "lib_clone E (heap st) (val (replicants st ! this)) = (oldValue, h)"
    by (cases "lib_clone E (heap st) (val (replicants st ! this))")
  obtain res st1 where w: "proxyRecursive n E this v ''/'' (st\<lparr>heap := h\<rparr>) = (res, st1)"
    by (cases "proxyRecursive n E this v ''/'' (st\<lparr>heap := h\<rparr>)")
  from run c w obtain p where p: "res = Inr p"
    by (cases res) (simp_all add: Replicant_assignValue_def)
  have fr: "frame st1 = frame st"
    using frame_proxyRecursive [OF w] by simp
  have len1: "this < length (replicants st1)"
    using frame_fields(1) [OF fr] len by simp
  have r: "rep_frame (replicants st1 ! this) = rep_frame (replicants st ! this)"
    using frame_fields(7) [OF fr, of this] len by simp
  define f :: "Replicant \<Rightarrow> Replicant" where "f = (\<lambda>r. r\<lparr>val := p, revision := (case rv of None \<Rightarrow> revision r | Some k \<Rightarrow> k)\<rparr>)"
  have st': "st' = emit_event this ''change'' [ArgValue p, ArgValue oldValue] (upd_rep this f st1)"
  proof (cases rv)
    case None
    with run c w p len1 show ?thesis
      by (simp add: Replicant_assignValue_def Let_def upd_rep_nth f_def)
  next
    case (Some k)
    with run c w p len1 show ?thesis
      by (simp add: Replicant_assignValue_def Let_def upd_rep_nth upd_rep_twice f_def)
  qed
  have nth: "replicants st' ! this = f (replicants st1 ! this)"
    using len1 by (simp add: st' emit_event_def upd_rep_nth)
  show "emitted st' = emitted st"
    using frame_fields(3) [OF fr] by (simp add: st' emit_event_def upd_rep_def)
  show "length (replicants st') = length (replicants st)"
    using frame_fields(1) [OF fr] by (simp add: st' emit_event_def)
  show "name (replicants st' ! this) = name (replicants st ! this)"
    using rep_frame_fields(4) [OF r] by (simp add: nth f_def)
  show "namespace (replicants st' ! this) = namespace (replicants st ! this)"
    using rep_frame_fields(5) [OF r] by (simp add: nth f_def)
  show "socket (replicants st' ! this) = socket (replicants st ! this)"
    using rep_frame_fields(7) [OF r] by (simp add: nth f_def)
  show "opts (replicants st' ! this) = opts (replicants st ! this)"
    using rep_frame_opts(1) [OF r] by (simp add: nth f_def)
  show "schemaSum (replicants st' ! this) = schemaSum (replicants st ! this)"
    using rep_frame_opts(2) [OF r] by (simp add: nth f_def)
  show "actionQueue (replicants st' ! this) = actionQueue (replicants st ! this)"
    using rep_frame_fields(6) [OF r] by (simp add: nth f_def)
qed


lemma declareCallback_replays:
  assumes len: "this < length (replicants st)"
    and run: "declareCallback n E this data st = (Inr (), st')"
  shows "actionQueue (replicants st' ! this) = []"
    and "emitted st' = emitted st @
          map (\<lambda>item.
                 \<lparr>m_socket = socket (replicants st ! this),
                  m_event = ''replicant:proposeAssignment'',
                  m_payload =
                    ProposePayload (name (replicants st ! this)) (namespace (replicants st ! this))
                      (case snd item of [] \<Rightarrow> Undefined | v # vs \<Rightarrow> v)
                      (if truthy (a_schema data) then a_schemaSum data
                       else schemaSum (replicants st ! this))
                      (opts (replicants st ! this)),
                  m_ack = Some (ProposeAssignmentCallback this)\<rparr>)
            (actionQueue (replicants st ! this))"
proof -
  define rejected where
    "rejected = (if truthy (a_rejectReason data) then
              (if 0 < listenerCount this ''declarationRejected'' st then
                 (Inr (), emit_event this ''declarationRejected'' [ArgValue (a_rejectReason data)] st)
               else (Inl (Error (lib_toString E (heap st) (a_rejectReason data))), st))
            else (Inr (), st))"
  obtain r0 st0 where rej: "rejected = (r0, st0)" by (cases rejected)
  note run0 = run [unfolded declareCallback_def, folded rejected_def, unfolded rej]
  have r0: "r0 = Inr ()"
    using run0 by (cases r0) simp_all
  have st0: "st0 = st \<or> st0 = emit_event this ''declarationRejected'' [ArgValue (a_rejectReason data)] st"
    using rej r0 by (auto simp add: rejected_def split: if_splits)
  define st1 where "st1 = upd_rep this (\<lambda>r. r\<lparr>status := Declared\<rparr>) st0"
  have len1: "this < length (replicants st1)"
    using st0 len by (auto simp add: st1_def emit_event_def)
  have k1: "emitted st1 = emitted st"
    "name (replicants st1 ! this) = name (replicants st ! this)"
    "namespace (replicants st1 ! this) = namespace (replicants st ! this)"
    "socket (replicants st1 ! this) = socket (replicants st ! this)"
    "opts (replicants st1 ! this) = opts (replicants st ! this)"
    "schemaSum (replicants st1 ! this) = schemaSum (replicants st ! this)"
    "actionQueue (replicants st1 ! this) = actionQueue (replicants st ! this)"
    using st0 len by (auto simp add: st1_def emit_event_def upd_rep_def)
  define assigned where
    "assigned = (if Some (revision (replicants st1 ! this)) \<noteq> a_revision data
                    \<or> \<not> lib_equal E (heap st1) (val (replicants st1 ! this)) (a_value data)
                 then Replicant_assignValue n E this (a_value data) (a_revision data) st1
                 else (Inr (), st1))"
  obtain r2 st2 where asg: "assigned = (r2, st2)" by (cases assigned)
  note run2 = run0 [unfolded r0 prod.case sum.case Let_def, folded st1_def, folded assigned_def,
                    unfolded asg]
  have r2: "r2 = Inr ()"
    using run2 by (cases r2) simp_all
  have st2: "st2 = st1 \<or> Replicant_assignValue n E this (a_value data) (a_revision data) st1 = (Inr (), st2)"
    using asg r2 by (auto simp add: assigned_def split: if_splits)
  have len2: "this < length (replicants st2)"
    using st2 len1 assignValue_keeps(2) [of n E this "a_value data" "a_revision data" st1 "()" st2]
    by auto
  have k2: "emitted st2 = emitted st"
    "name (replicants st2 ! this) = name (replicants st ! this)"
    "namespace (replicants st2 ! this) = namespace (replicants st ! this)"
    "socket (replicants st2 ! this) = socket (replicants st ! this)"
    "opts (replicants st2 ! this) = opts (replicants st ! this)"
    "schemaSum (replicants st2 ! this) = schemaSum (replicants st ! this)"
    "actionQueue (replicants st2 ! this) = actionQueue (replicants st ! this)"
    using st2 len1 k1 assignValue_keeps [of n E this "a_value data" "a_revision data" st1 "()" st2]
    by auto
  define st3 where
    "st3 = (if truthy (a_schema data)
            then upd_rep this
                   (\<lambda>r. r\<lparr>schema := a_schema data, schemaSum := a_schemaSum data,
                          validator := Some (a_schema data)\<rparr>) st2
            else st2)"
  define st4 where "st4 = emit_event this ''declared'' [ArgData data] st3"
  define st5 where
    "st5 = (if val (replicants st4 ! this) = Undefined \<and> revision (replicants st4 ! this) = 0
            then emit_event this ''change'' [] st4
            else st4)"
  have len5: "this < length (replicants st5)"
    using len2 by (simp add: st5_def st4_def st3_def emit_event_def)
  have k5: "emitted st5 = emitted st"
    "name (replicants st5 ! this) = name (replicants st ! this)"
    "namespace (replicants st5 ! this) = namespace (replicants st ! this)"
    "socket (replicants st5 ! this) = socket (replicants st ! this)"
    "opts (replicants st5 ! this) = opts (replicants st ! this)"
    "schemaSum (replicants st5 ! this)
       = (if truthy (a_schema data) then a_schemaSum data else schemaSum (replicants st ! this))"
    "actionQueue (replicants st5 ! this) = actionQueue (replicants st ! this)"
    using len2 k2 by (simp_all add: st5_def st4_def st3_def emit_event_def upd_rep_def)
  have st': "st' = (if actionQueue (replicants st5 ! this) \<noteq> [] then
                      upd_rep this (\<lambda>r. r\<lparr>actionQueue := []\<rparr>)
                        (runActions this (actionQueue (replicants st5 ! this)) st5)
                    else st5)"
    using run2 [unfolded r2 prod.case sum.case, folded st3_def, folded st4_def, folded st5_def]
    by (simp split: if_splits)
  show "actionQueue (replicants st' ! this) = []"
    using len5 by (simp add: st' runActions_emitted upd_rep_def)
  show "emitted st' = emitted st @
          map (\<lambda>item.
                 \<lparr>m_socket = socket (replicants st ! this),
                  m_event = ''replicant:proposeAssignment'',
                  m_payload =
                    ProposePayload (name (replicants st ! this)) (namespace (replicants st ! this))
                      (case snd item of [] \<Rightarrow> Undefined | v # vs \<Rightarrow> v)
                      (if truthy (a_schema data) then a_schemaSum data
                       else schemaSum (replicants st ! this))
                      (opts (replicants st ! this)),
                  m_ack = Some (ProposeAssignmentCallback this)\<rparr>)
            (actionQueue (replicants st ! this))"
    using k5 by (cases "actionQueue (replicants st ! this) = []")
      (simp_all add: st' runActions_emitted upd_rep_def)
qed


lemma length_Replicant_validate:
  "Replicant_validate E this v t st = (res, st1)
     \<Longrightarrow> length (replicants st1) = length (replicants st)"
  by (auto simp add: Replicant_validate_def Let_def upd_rep_def
        split: option.splits prod.splits sum.splits if_splits)

text \<open>
  C6, as amended.  While the operation-suppression flag of the Replicant is set, assigning
  \<open>.value\<close> is the plain write of the field: the state changes in the value only.  While
  it is not set: assigning the value it already holds (strict equality) returns the state
  unchanged; assigning a different value first validates it, a validation error is passed
  on with nothing emitted and nothing queued, and after a successful validation the trap
  invokes \<open>_proposeAssignment\<close> when the status is \<open>declared\<close> and otherwise appends the
  call to the action queue, emitting nothing.  A declare acknowledgement that completes
  without raising replays the queue: it emits one \<open>replicant:proposeAssignment\<close> for each
  queued action, in queue order and with the queued value, and leaves the queue empty.
\<close>

theorem set_value_by_suppression_flag:
  "(ignoreProxy (replicants st ! target)
      \<longrightarrow> replicantHandler_set_value E target newValue st
            = (Inr True, upd_rep target (\<lambda>r. r\<lparr>val := newValue\<rparr>) st))
   \<and> (\<not> ignoreProxy (replicants st ! target)
      \<longrightarrow>
      (newValue = val (replicants st ! target)
         \<longrightarrow> replicantHandler_set_value E target newValue st = (Inr True, st))
      \<and> (newValue \<noteq> val (replicants st ! target)
         \<longrightarrow> (\<forall>e st1. Replicant_validate E target newValue True st = (Inl e, st1)
                 \<longrightarrow> replicantHandler_set_value E target newValue st = (Inl e, st1)
                     \<and> emitted st1 = emitted st
                     \<and> actionQueue (replicants st1 ! target) = actionQueue (replicants st ! target))
             \<and> (\<forall>ok st1. Replicant_validate E target newValue True st = (Inr ok, st1)
                 \<longrightarrow> replicantHandler_set_value E target newValue st =
                       (Inr True,
                        if status (replicants st ! target) = Declared
                        then Replicant_proposeAssignment target newValue st1
                        else Replicant_queueAction target Fn_proposeAssignment [newValue] st1)
                     \<and> (status (replicants st ! target) \<noteq> Declared
                          \<and> target < length (replicants st)
                         \<longrightarrow> emitted (snd (replicantHandler_set_value E target newValue st))
                               = emitted st
                             \<and> actionQueue
                                 (replicants (snd (replicantHandler_set_value E target newValue st))
                                    ! target)
                               = actionQueue (replicants st ! target)
                                   @ [(Fn_proposeAssignment, [newValue])]))))
   \<and> (target < length (replicants pending)
       \<and> declareCallback n E target data pending = (Inr (), drained)
      \<longrightarrow> actionQueue (replicants drained ! target) = []
          \<and> emitted drained =
              emitted pending @
              map (\<lambda>item.
                     \<lparr>m_socket = socket (replicants pending ! target),
                      m_event = ''replicant:proposeAssignment'',
                      m_payload =
                        ProposePayload (name (replicants pending ! target))
                          (namespace (replicants pending ! target))
                          (case snd item of [] \<Rightarrow> Undefined | v # vs \<Rightarrow> v)
                          (if truthy (a_schema data) then a_schemaSum data
                           else schemaSum (replicants pending ! target))
                          (opts (replicants pending ! target)),
                      m_ack = Some (ProposeAssignmentCallback target)\<rparr>)
                (actionQueue (replicants pending ! target)))"
proof (intro impI conjI allI)
  assume "ignoreProxy (replicants st ! target)"
  then show "replicantHandler_set_value E target newValue st
            = (Inr True, upd_rep target (\<lambda>r. r\<lparr>val := newValue\<rparr>) st)"
    by (simp add: replicantHandler_set_value_def)
next
  assume "\<not> ignoreProxy (replicants st ! target)" "newValue = val (replicants st ! target)"
  then show "replicantHandler_set_value E target newValue st = (Inr True, st)"
    by (simp add: replicantHandler_set_value_def)
next
  fix e st1
  assume a: "\<not> ignoreProxy (replicants st ! target)" "newValue \<noteq> val (replicants st ! target)"
    and v: "Replicant_validate E target newValue True st = (Inl e, st1)"
  show "replicantHandler_set_value E target newValue st = (Inl e, st1)"
    using a v by (simp add: replicantHandler_set_value_def)
  show "emitted st1 = emitted st"
    using status_Replicant_validate [OF v] by simp
  show "actionQueue (replicants st1 ! target) = actionQueue (replicants st ! target)"
    using status_Replicant_validate [OF v] by simp
next
  fix ok st1
  assume a: "\<not> ignoreProxy (replicants st ! target)" "newValue \<noteq> val (replicants st ! target)"
    and v: "Replicant_validate E target newValue True st = (Inr ok, st1)"
  have s: "status (replicants st1 ! target) = status (replicants st ! target)"
    using status_Replicant_validate [OF v] by simp
  then show trap: "replicantHandler_set_value E target newValue st =
                    (Inr True,
                     if status (replicants st ! target) = Declared
                     then Replicant_proposeAssignment target newValue st1
                     else Replicant_queueAction target Fn_proposeAssignment [newValue] st1)"
    using a v by (simp add: replicantHandler_set_value_def)
  assume u: "status (replicants st ! target) \<noteq> Declared \<and> target < length (replicants st)"
  have len1: "target < length (replicants st1)"
    using length_Replicant_validate [OF v] u by simp
  show "emitted (snd (replicantHandler_set_value E target newValue st)) = emitted st"
    using status_Replicant_validate [OF v] u
    by (simp add: trap Replicant_queueAction_def upd_rep_def)
  show "actionQueue (replicants (snd (replicantHandler_set_value E target newValue st)) ! target)
          = actionQueue (replicants st ! target) @ [(Fn_proposeAssignment, [newValue])]"
    using status_Replicant_validate [OF v, of target] u len1
    by (simp add: trap Replicant_queueAction_def upd_rep_def)
next
  assume a: "target < length (replicants pending)
       \<and> declareCallback n E target data pending = (Inr (), drained)"
  then have len: "target < length (replicants pending)"
    and run: "declareCallback n E target data pending = (Inr (), drained)"
    by simp_all
  show "actionQueue (replicants drained ! target) = []"
    using declareCallback_replays(1) [OF len run] .
  show "emitted drained =
              emitted pending @
              map (\<lambda>item.
                     \<lparr>m_socket = socket (replicants pending ! target),
                      m_event = ''replicant:proposeAssignment'',
                      m_payload =
                        ProposePayload (name (replicants pending ! target))
                          (namespace (replicants pending ! target))
                          (case snd item of [] \<Rightarrow> Undefined | v # vs \<Rightarrow> v)
                          (if truthy (a_schema data) then a_schemaSum data
                           else schemaSum (replicants pending ! target))
                          (opts (replicants pending ! target)),
                      m_ack = Some (ProposeAssignmentCallback target)\<rparr>)
                (actionQueue (replicants pending ! target))"
    using declareCallback_replays(2) [OF len run] .
qed

text \<open>
  C6 as stated fails while the suppression flag is set.  In \<open>st_stuck\<close> the unknown method
  made \<open>applyOperation\<close> raise after it had set the flag, which nothing clears.  Assigning
  the object at address 1, which the validator rejects and which differs from the current
  value, is then a plain write: no validation error, no message, no queued action.
\<close>

theorem set_value_while_suppressed_skips_validation:
  "status (replicants st_stuck ! 0) = Declared
   \<and> ignoreProxy (replicants st_stuck ! 0)
   \<and> val (replicants st_stuck ! 0) = Ref 3
   \<and> fst (Replicant_validate ext0 0 (Ref 1) True st_stuck)
       = Inl (Error (validate_header (replicants st_stuck ! 0)
                      @ validate_errorLine ext0 (heap st_stuck)
                          \<lparr>ve_field = ''data.count'', ve_message = ''is the wrong type'',
                            ve_value = Str ''x'', ve_type = ''number''\<rparr>))
   \<and> replicantHandler_set_value ext0 0 (Ref 1) st_stuck
       = (Inr True, upd_rep 0 (\<lambda>r. r\<lparr>val := Ref 1\<rparr>) st_stuck)
   \<and> emitted (snd (replicantHandler_set_value ext0 0 (Ref 1) st_stuck)) = emitted st_stuck
   \<and> actionQueue (replicants (snd (replicantHandler_set_value ext0 0 (Ref 1) st_stuck)) ! 0) = []
   \<and> validationErrors (replicants (snd (replicantHandler_set_value ext0 0 (Ref 1) st_stuck)) ! 0) = []"
  by code_simp

lemma st_schema_owned_facts:
  "\<not> ignoreProxy (replicants st_schema_owned ! 0)"
  "val (replicants st_schema_owned ! 0) = Ref 3"
  "status (replicants st_schema_owned ! 0) = Declared"
  by code_simp+

lemma st_schema_owned_invalid:
  "fst (Replicant_validate ext0 0 (Ref 1) True st_schema_owned)
     = Inl (Error (validate_header (replicants st_schema_owned ! 0)
                    @ validate_errorLine ext0 (heap st_schema_owned)
                        \<lparr>ve_field = ''data.count'', ve_message = ''is the wrong type'',
                          ve_value = Str ''x'', ve_type = ''number''\<rparr>))"
  by code_simp

lemma st_schema_owned_valid:
  "Replicant_validate ext0 0 (Ref 2) True st_schema_owned = (Inr True, st_schema_owned)"
  by code_simp

lemma st_constructed_facts:
  "\<not> ignoreProxy (replicants st_constructed ! 0)"
  "val (replicants st_constructed ! 0) = Undefined"
  "Replicant_validate ext0 0 (Num 5) True st_constructed = (Inr True, st_constructed)"
  by code_simp+

lemma st_queued_facts:
  "length (replicants st_queued) = 1"
  "actionQueue (replicants st_queued ! 0) = [(Fn_proposeAssignment, [Num 5])]"
  "fst (declareCallback frames ext0 0 ack_empty st_queued) = Inr ()"
  "name (replicants st_queued ! 0) = ''a''"
  "namespace (replicants st_queued ! 0) = ''bundle''"
  "socket (replicants st_queued ! 0) = 0"
  "opts (replicants st_queued ! 0) = 0"
  "schemaSum (replicants st_queued ! 0) = []"
  by code_simp+

lemma st_stuck_flag: "ignoreProxy (replicants st_stuck ! 0)"
  by code_simp

lemma st_constructed_queue:
  "length (replicants st_constructed) = 1"
  "actionQueue (replicants st_constructed ! 0) = []"
  by code_simp+


theorem set_value_by_suppression_flag_witness:
  "replicantHandler_set_value ext0 0 (Ref 3) st_schema_owned = (Inr True, st_schema_owned)
   \<and> fst (replicantHandler_set_value ext0 0 (Ref 1) st_schema_owned)
       = Inl (Error (validate_header (replicants st_schema_owned ! 0)
                      @ validate_errorLine ext0 (heap st_schema_owned)
                          \<lparr>ve_field = ''data.count'', ve_message = ''is the wrong type'',
                            ve_value = Str ''x'', ve_type = ''number''\<rparr>))
   \<and> emitted (snd (replicantHandler_set_value ext0 0 (Ref 1) st_schema_owned))
       = emitted st_schema_owned
   \<and> replicantHandler_set_value ext0 0 (Ref 2) st_schema_owned
       = (Inr True, Replicant_proposeAssignment 0 (Ref 2) st_schema_owned)
   \<and> replicantHandler_set_value ext0 0 (Num 5) st_constructed
       = (Inr True, Replicant_queueAction 0 Fn_proposeAssignment [Num 5] st_constructed)
   \<and> actionQueue (replicants (snd (replicantHandler_set_value ext0 0 (Num 5) st_constructed)) ! 0)
       = [(Fn_proposeAssignment, [Num 5])]
   \<and> replicantHandler_set_value ext0 0 (Num 7) st_stuck
       = (Inr True, upd_rep 0 (\<lambda>r. r\<lparr>val := Num 7\<rparr>) st_stuck)
   \<and> actionQueue (replicants (snd (declareCallback frames ext0 0 ack_empty st_queued)) ! 0) = []
   \<and> emitted (snd (declareCallback frames ext0 0 ack_empty st_queued))
       = emitted st_queued @
           [\<lparr>m_socket = 0, m_event = ''replicant:proposeAssignment'',
             m_payload = ProposePayload ''a'' ''bundle'' (Num 5) [] 0,
             m_ack = Some (ProposeAssignmentCallback 0)\<rparr>]"
proof -
  have 1: "replicantHandler_set_value ext0 0 (Ref 3) st_schema_owned = (Inr True, st_schema_owned)"
    using set_value_by_suppression_flag
            [where st = st_schema_owned and target = 0 and newValue = "Ref 3" and E = ext0,
               THEN conjunct2, THEN conjunct1]
          st_schema_owned_facts
    by simp
  have inv: "Replicant_validate ext0 0 (Ref 1) True st_schema_owned
      = (Inl (Error (validate_header (replicants st_schema_owned ! 0)
                      @ validate_errorLine ext0 (heap st_schema_owned)
                          \<lparr>ve_field = ''data.count'', ve_message = ''is the wrong type'',
                            ve_value = Str ''x'', ve_type = ''number''\<rparr>)),
         snd (Replicant_validate ext0 0 (Ref 1) True st_schema_owned))"
    using st_schema_owned_invalid by (simp add: prod_eq_iff)
  have 2: "replicantHandler_set_value ext0 0 (Ref 1) st_schema_owned
      = (Inl (Error (validate_header (replicants st_schema_owned ! 0)
                      @ validate_errorLine ext0 (heap st_schema_owned)
                          \<lparr>ve_field = ''data.count'', ve_message = ''is the wrong type'',
                            ve_value = Str ''x'', ve_type = ''number''\<rparr>)),
         snd (Replicant_validate ext0 0 (Ref 1) True st_schema_owned))
     \<and> emitted (snd (Replicant_validate ext0 0 (Ref 1) True st_schema_owned))
         = emitted st_schema_owned"
    using set_value_by_suppression_flag
            [where st = st_schema_owned and target = 0 and newValue = "Ref 1" and E = ext0,
               THEN conjunct2, THEN conjunct1]
          st_schema_owned_facts inv
    by auto
  have 3: "replicantHandler_set_value ext0 0 (Ref 2) st_schema_owned
       = (Inr True, Replicant_proposeAssignment 0 (Ref 2) st_schema_owned)"
    using set_value_by_suppression_flag
            [where st = st_schema_owned and target = 0 and newValue = "Ref 2" and E = ext0,
               THEN conjunct2, THEN conjunct1]
          st_schema_owned_facts st_schema_owned_valid
    by auto
  have 4: "replicantHandler_set_value ext0 0 (Num 5) st_constructed
       = (Inr True, Replicant_queueAction 0 Fn_proposeAssignment [Num 5] st_constructed)
     \<and> actionQueue (replicants (snd (replicantHandler_set_value ext0 0 (Num 5) st_constructed)) ! 0)
       = [(Fn_proposeAssignment, [Num 5])]"
    using set_value_by_suppression_flag
            [where st = st_constructed and target = 0 and newValue = "Num 5" and E = ext0,
               THEN conjunct2, THEN conjunct1]
          st_constructed_facts st_constructed_status st_constructed_queue
    by auto
  have 5: "replicantHandler_set_value ext0 0 (Num 7) st_stuck
       = (Inr True, upd_rep 0 (\<lambda>r. r\<lparr>val := Num 7\<rparr>) st_stuck)"
    using set_value_by_suppression_flag
            [where st = st_stuck and target = 0 and newValue = "Num 7" and E = ext0,
               THEN conjunct1]
          st_stuck_flag
    by simp
  have run: "declareCallback frames ext0 0 ack_empty st_queued
      = (Inr (), snd (declareCallback frames ext0 0 ack_empty st_queued))"
    using st_queued_facts(3) by (simp add: prod_eq_iff)
  have 6: "actionQueue (replicants (snd (declareCallback frames ext0 0 ack_empty st_queued)) ! 0) = []
     \<and> emitted (snd (declareCallback frames ext0 0 ack_empty st_queued))
       = emitted st_queued @
           [\<lparr>m_socket = 0, m_event = ''replicant:proposeAssignment'',
             m_payload = ProposePayload ''a'' ''bundle'' (Num 5) [] 0,
             m_ack = Some (ProposeAssignmentCallback 0)\<rparr>]"
    using set_value_by_suppression_flag
            [where pending = st_queued and target = 0 and n = frames and E = ext0
               and data = ack_empty
               and drained = "snd (declareCallback frames ext0 0 ack_empty st_queued)",
               THEN conjunct2, THEN conjunct2]
          st_queued_facts run
    by (simp add: ack_empty_def)
  from 1 2 3 4 [THEN conjunct1] 4 [THEN conjunct2] 5 6 show ?thesis by simp
qed

end
